theory Spec2Isabelle
  imports Complex_Main "HOL-Library.Word"
begin

section \<open>JavaScript strings and numbers\<close>

text \<open>
  A JavaScript string is a sequence of UTF-16 code units; \<open>s.length\<close> counts code
  units. A character outside the Basic Multilingual Plane takes two code units (a
  surrogate pair) and is one code point.
\<close>

type_synonym jsstring = "16 word list"

definition js :: "string \<Rightarrow> jsstring" where
  "js s = map of_char s"

text \<open>The code points of a string, as the string iterator yields them: a high surrogate
  followed by a low surrogate is one code point, every other code unit is one of its own.\<close>

definition isHighSurrogate :: "16 word \<Rightarrow> bool" where
  "isHighSurrogate c = (0xD800 \<le> c \<and> c \<le> 0xDBFF)"

definition isLowSurrogate :: "16 word \<Rightarrow> bool" where
  "isLowSurrogate c = (0xDC00 \<le> c \<and> c \<le> 0xDFFF)"

fun codePoints :: "jsstring \<Rightarrow> jsstring list" where
  "codePoints [] = []"
| "codePoints [c] = [[c]]"
| "codePoints (c # d # cs) =
     (if isHighSurrogate c \<and> isLowSurrogate d then [c, d] # codePoints cs
      else [c] # codePoints (d # cs))"

definition codePointLength :: "jsstring \<Rightarrow> nat" where
  "codePointLength s = length (codePoints s)"

text \<open>\<open>s.substring(a, b)\<close> for non-negative integers: both indices are clamped to the
  length and swapped when \<open>a > b\<close>.\<close>

definition substring :: "jsstring \<Rightarrow> nat \<Rightarrow> nat \<Rightarrow> jsstring" where
  "substring s a b =
     (let a' = min a (length s); b' = min b (length s)
      in take (max a' b' - min a' b') (drop (min a' b') s))"

text \<open>\<open>s.substring(a)\<close>: from index \<open>a\<close> to the end.\<close>

definition substringFrom :: "jsstring \<Rightarrow> nat \<Rightarrow> jsstring" where
  "substringFrom s a = substring s a (length s)"

text \<open>\<open>s.replace(/p/g, r)\<close> for a literal, non-empty pattern \<open>p\<close>: matches are found
  from left to right and do not overlap.\<close>

function replaceAll :: "jsstring \<Rightarrow> jsstring \<Rightarrow> jsstring \<Rightarrow> jsstring" where
  "replaceAll p r s =
     (if s = [] then []
      else if p \<noteq> [] \<and> take (length p) s = p
           then r @ replaceAll p r (drop (length p) s)
           else hd s # replaceAll p r (tl s))"
  by pat_completeness auto
termination
  by (relation "measure (\<lambda>(p, r, s). length s)") auto

text \<open>\<open>s.split(d)\<close> for a one-unit separator: always at least one element.\<close>

fun split :: "16 word \<Rightarrow> jsstring \<Rightarrow> jsstring list" where
  "split d [] = [[]]"
| "split d (c # cs) =
     (if c = d then [] # split d cs
      else (case split d cs of
              [] \<Rightarrow> [[c]]
            | x # xs \<Rightarrow> (c # x) # xs))"

text \<open>\<open>xs.join(sep)\<close> and lodash's \<open>_.join(xs, sep)\<close>.\<close>

fun join :: "jsstring list \<Rightarrow> jsstring \<Rightarrow> jsstring" where
  "join [] sep = []"
| "join [x] sep = x"
| "join (x # y # ys) sep = x @ sep @ join (y # ys) sep"

text \<open>\<open>xs.slice(a, b)\<close> for non-negative integers.\<close>

definition slice :: "'a list \<Rightarrow> nat \<Rightarrow> nat \<Rightarrow> 'a list" where
  "slice xs a b = take (b - a) (drop a xs)"

text \<open>A JavaScript number that is only stored and compared, never computed with:
  a real, or \<open>NaN\<close> (what \<open>parseFloat\<close> gives for text that is no number).\<close>

datatype jsnum = Num real | NaN

text \<open>The exceptions raised in what follows. A call that can raise gives \<open>Inr\<close> of the
  value it returns, or \<open>Inl\<close> of the error it raises.\<close>

datatype error = TypeError

section \<open>Gramambular: key-value pairs, unigrams, nodes\<close>

text \<open>\<open>KeyValuePair\<close> (field \<open>value\<close> is written \<open>val\<close>).\<close>

record keyValuePair =
  key :: jsstring
  val :: jsstring

text \<open>Modelled from the spec: the class \<open>Unigram\<close> is not among the sources; it is the
  triple (key, value, score). The one unigram that the source builds without a score, for
  the key \<open>" "\<close>, is given score 0 here; no statement below is about that score.\<close>

record unigram =
  keyValue :: keyValuePair
  score :: jsnum

definition Unigram :: "keyValuePair \<Rightarrow> jsnum \<Rightarrow> unigram" where
  "Unigram kv s = \<lparr>keyValue = kv, score = s\<rparr>"

definition KeyValuePair :: "jsstring \<Rightarrow> jsstring \<Rightarrow> keyValuePair" where
  "KeyValuePair k v = \<lparr>key = k, val = v\<rparr>"

section \<open>The language model (WebLanguageModel.ts)\<close>

subsection \<open>UserPhrases\<close>

text \<open>The map from a key to its phrases, and the log of the maps handed to the
  \<open>onPhraseChange\<close> callback, oldest first.\<close>

record userPhrases =
  up_map :: "jsstring \<rightharpoonup> jsstring list"
  up_changes :: "(jsstring \<rightharpoonup> jsstring list) list"

definition onPhraseChange :: "userPhrases \<Rightarrow> userPhrases" where
  "onPhraseChange up = up\<lparr>up_changes := up_changes up @ [up_map up]\<rparr>"

definition up_addUserPhrase :: "jsstring \<Rightarrow> jsstring \<Rightarrow> userPhrases \<Rightarrow> userPhrases" where
  "up_addUserPhrase k phrase up =
     (case up_map up k of
        Some list \<Rightarrow>
          if phrase \<in> set list then up
          else onPhraseChange (up\<lparr>up_map := (up_map up)(k \<mapsto> list @ [phrase])\<rparr>)
      | None \<Rightarrow> onPhraseChange (up\<lparr>up_map := (up_map up)(k \<mapsto> [phrase])\<rparr>))"

definition up_unigramsForKey :: "userPhrases \<Rightarrow> jsstring \<Rightarrow> unigram list" where
  "up_unigramsForKey up k =
     (case up_map up k of
        Some list \<Rightarrow> map (\<lambda>item. Unigram (KeyValuePair k item) (Num 0)) list
      | None \<Rightarrow> [])"

definition up_hasUnigramsForKey :: "userPhrases \<Rightarrow> jsstring \<Rightarrow> bool" where
  "up_hasUnigramsForKey up k =
     (case up_map up k of None \<Rightarrow> False | Some list \<Rightarrow> length list > 0)"

subsection \<open>WebLanguageModel\<close>

text \<open>\<open>map_\<close> is the dictionary object that the input controller gives the constructor,
  a plain object. Its own properties are the keys of the dictionary, the value of a key
  being the text "value score value score ..."; like every object it inherits the
  properties of \<open>Object.prototype\<close>, whose values are functions (an object, for
  \<open>__proto__\<close>) and no strings. A converter returns a string or \<open>undefined\<close>.\<close>

record webLanguageModel =
  wlm_map :: "jsstring \<rightharpoonup> jsstring"
  wlm_userPhrases :: userPhrases
  wlm_converter :: "(jsstring \<Rightarrow> jsstring option) option"
  addUserPhraseConverter :: "(jsstring \<Rightarrow> jsstring option) option"

text \<open>The names of the properties of \<open>Object.prototype\<close>.\<close>

definition objectPrototypeNames :: "jsstring list" where
  "objectPrototypeNames =
     map js [''constructor'', ''__defineGetter__'', ''__defineSetter__'', ''hasOwnProperty'',
             ''__lookupGetter__'', ''__lookupSetter__'', ''isPrototypeOf'',
             ''propertyIsEnumerable'', ''toString'', ''valueOf'', ''__proto__'',
             ''toLocaleString'']"

text \<open>\<open>k in map_\<close>: true of the dictionary's own keys and of the inherited names.\<close>

definition hasProperty :: "(jsstring \<rightharpoonup> jsstring) \<Rightarrow> jsstring \<Rightarrow> bool" where
  "hasProperty m k = (m k \<noteq> None \<or> k \<in> set objectPrototypeNames)"

text \<open>\<open>map_[k].split(" ")\<close>: the pieces of the text of an own key. Any other value (that of
  an inherited property, or \<open>undefined\<close>) has no method \<open>split\<close>: the call raises a
  \<open>TypeError\<close>.\<close>

definition splitEntry :: "(jsstring \<rightharpoonup> jsstring) \<Rightarrow> jsstring \<Rightarrow> error + jsstring list" where
  "splitEntry m k = (case m k of Some entries \<Rightarrow> Inr (split 0x20 entries) | None \<Rightarrow> Inl TypeError)"

text \<open>\<open>f(x) ?? x\<close> when the converter \<open>f\<close> is set, \<open>x\<close> otherwise.\<close>

definition convert :: "(jsstring \<Rightarrow> jsstring option) option \<Rightarrow> jsstring \<Rightarrow> jsstring" where
  "convert conv x =
     (case conv of
        None \<Rightarrow> x
      | Some f \<Rightarrow> (case f x of Some y \<Rightarrow> y | None \<Rightarrow> x))"

definition addUserPhrase :: "jsstring \<Rightarrow> jsstring \<Rightarrow> webLanguageModel \<Rightarrow> webLanguageModel" where
  "addUserPhrase k phrase lm =
     lm\<lparr>wlm_userPhrases :=
          up_addUserPhrase k (convert (addUserPhraseConverter lm) phrase) (wlm_userPhrases lm)\<rparr>"

definition startsWithUnderscore :: "jsstring \<Rightarrow> bool" where
  "startsWithUnderscore s = (case s of [] \<Rightarrow> False | c # _ \<Rightarrow> c = 0x5F)"

text \<open>\<open>absoluteOrderString\<close> stands for
  \<open>BopomofoSyllable.FromComposedString(s).absoluteOrderString\<close>, which is not among the
  sources.\<close>

definition maybeAbsoluteOrderKey :: "(jsstring \<Rightarrow> jsstring) \<Rightarrow> jsstring \<Rightarrow> jsstring" where
  "maybeAbsoluteOrderKey absoluteOrderString k =
     (let r = replaceAll (js ''_-'') (js ''_______'') k;
          elements = map (\<lambda>s. if startsWithUnderscore s then s else absoluteOrderString s)
                         (split 0x2D r)
      in replaceAll (js ''_______'') (js ''_-'') (join elements []))"

text \<open>The first loop of \<open>unigramsForKey\<close>: one user phrase, with the result list and the
  values used so far.\<close>

definition userStep ::
  "(jsstring \<Rightarrow> jsstring option) option \<Rightarrow> jsstring \<Rightarrow>
   unigram list \<times> jsstring list \<Rightarrow> unigram \<Rightarrow> unigram list \<times> jsstring list" where
  "userStep conv k acc phrase =
     (let phrase' = (case conv of
                       None \<Rightarrow> phrase
                     | Some f \<Rightarrow> Unigram (KeyValuePair k (convert conv (val (keyValue phrase))))
                                         (score phrase));
          v = val (keyValue phrase')
      in ((if v \<notin> set (snd acc) then fst acc @ [phrase'] else fst acc), snd acc @ [v]))"

text \<open>The second loop: the entries of the dictionary text, two at a time; \<open>parseFloat\<close>
  is a parameter, applied to \<open>None\<close> when the text has no entry at index \<open>i + 1\<close>.\<close>

definition staticStep ::
  "(jsstring option \<Rightarrow> jsnum) \<Rightarrow> (jsstring \<Rightarrow> jsstring option) option \<Rightarrow> jsstring \<Rightarrow>
   jsstring \<Rightarrow> jsstring option \<Rightarrow> unigram list \<times> jsstring list \<Rightarrow> unigram list \<times> jsstring list" where
  "staticStep parseFloat conv k v0 s acc =
     (let sc = parseFloat s;
          v = convert conv v0
      in ((if v \<notin> set (snd acc) then fst acc @ [Unigram (KeyValuePair k v) sc] else fst acc),
          snd acc @ [v]))"

fun staticLoop ::
  "(jsstring option \<Rightarrow> jsnum) \<Rightarrow> (jsstring \<Rightarrow> jsstring option) option \<Rightarrow> jsstring \<Rightarrow>
   jsstring list \<Rightarrow> unigram list \<times> jsstring list \<Rightarrow> unigram list \<times> jsstring list" where
  "staticLoop parseFloat conv k [] acc = acc"
| "staticLoop parseFloat conv k [v] acc = staticStep parseFloat conv k v None acc"
| "staticLoop parseFloat conv k (v # s # rest) acc =
     staticLoop parseFloat conv k rest (staticStep parseFloat conv k v (Some s) acc)"

text \<open>\<open>unigramsForKey\<close> returns the unigrams, or raises when the actual key is in the
  dictionary object without being a key of the dictionary.\<close>

definition unigramsForKey ::
  "(jsstring \<Rightarrow> jsstring) \<Rightarrow> (jsstring option \<Rightarrow> jsnum) \<Rightarrow> webLanguageModel \<Rightarrow> jsstring \<Rightarrow>
   error + unigram list" where
  "unigramsForKey absoluteOrderString parseFloat lm k =
     (if k = js '' '' then Inr [Unigram (KeyValuePair (js '' '') (js '' '')) (Num 0)]
      else
        let userPhrases = up_unigramsForKey (wlm_userPhrases lm) k;
            acc = foldl (userStep (wlm_converter lm) k) ([], []) userPhrases;
            actualKey = maybeAbsoluteOrderKey absoluteOrderString k
        in if hasProperty (wlm_map lm) actualKey
           then (case splitEntry (wlm_map lm) actualKey of
                   Inl e \<Rightarrow> Inl e
                 | Inr values \<Rightarrow>
                     Inr (fst (staticLoop parseFloat (wlm_converter lm) k values acc)))
           else Inr (fst acc))"

definition hasUnigramsForKey ::
  "(jsstring \<Rightarrow> jsstring) \<Rightarrow> webLanguageModel \<Rightarrow> jsstring \<Rightarrow> bool" where
  "hasUnigramsForKey absoluteOrderString lm k =
     (if k = js '' '' then True
      else if up_hasUnigramsForKey (wlm_userPhrases lm) k then True
      else hasProperty (wlm_map lm) (maybeAbsoluteOrderKey absoluteOrderString k))"

text \<open>Modelled from the spec: the interface \<open>LanguageModel\<close> (the capability set
  \<open>unigrams_for\<close>, \<open>has_unigrams_for\<close>) is not among the sources. A language model is the
  \<open>WebLanguageModel\<close> above or any other implementation, given by its two operations,
  which return.\<close>

datatype languageModel =
  WebLanguageModel webLanguageModel
| OtherLanguageModel "jsstring \<Rightarrow> unigram list" "jsstring \<Rightarrow> bool"

section \<open>Input states (InputState.ts)\<close>

text \<open>The classes of InputState.ts; \<open>NotEmpty\<close> is a class of its own and the base class of
  \<open>Inputting\<close>, \<open>ChoosingCandidate\<close> and \<open>Marking\<close>. The fields of \<open>Marking\<close> are, in the
  order of its constructor: buffer, cursor index, tooltip, mark start, head, marked text,
  tail, reading, acceptable.\<close>

datatype inputState =
  Empty
| EmptyIgnoringPrevious
| Committing jsstring
| NotEmpty jsstring nat jsstring
| Inputting jsstring nat jsstring jsstring
| ChoosingCandidate jsstring nat "jsstring list"
| Marking jsstring nat jsstring nat jsstring jsstring jsstring jsstring bool

text \<open>\<open>state instanceof NotEmpty\<close>, \<open>state instanceof Inputting\<close>, \<open>state instanceof Marking\<close>.\<close>

fun isNotEmpty :: "inputState \<Rightarrow> bool" where
  "isNotEmpty (NotEmpty _ _ _) = True"
| "isNotEmpty (Inputting _ _ _ _) = True"
| "isNotEmpty (ChoosingCandidate _ _ _) = True"
| "isNotEmpty (Marking _ _ _ _ _ _ _ _ _) = True"
| "isNotEmpty _ = False"

fun isInputting :: "inputState \<Rightarrow> bool" where
  "isInputting (Inputting _ _ _ _) = True"
| "isInputting _ = False"

fun isMarking :: "inputState \<Rightarrow> bool" where
  "isMarking (Marking _ _ _ _ _ _ _ _ _) = True"
| "isMarking _ = False"

text \<open>The getters of \<open>NotEmpty\<close> and its subclasses (the empty string and 0 stand for a
  missing field of the other classes).\<close>

fun composingBuffer :: "inputState \<Rightarrow> jsstring" where
  "composingBuffer (NotEmpty b _ _) = b"
| "composingBuffer (Inputting b _ _ _) = b"
| "composingBuffer (ChoosingCandidate b _ _) = b"
| "composingBuffer (Marking b _ _ _ _ _ _ _ _) = b"
| "composingBuffer _ = []"

fun cursorIndex :: "inputState \<Rightarrow> nat" where
  "cursorIndex (NotEmpty _ i _) = i"
| "cursorIndex (Inputting _ i _ _) = i"
| "cursorIndex (ChoosingCandidate _ i _) = i"
| "cursorIndex (Marking _ i _ _ _ _ _ _ _) = i"
| "cursorIndex _ = 0"

fun tooltip :: "inputState \<Rightarrow> jsstring" where
  "tooltip (NotEmpty _ _ t) = t"
| "tooltip (Inputting _ _ t _) = t"
| "tooltip (Marking _ _ t _ _ _ _ _ _) = t"
| "tooltip _ = []"

fun evictedText :: "inputState \<Rightarrow> jsstring" where
  "evictedText (Inputting _ _ _ e) = e"
| "evictedText _ = []"

fun candidates :: "inputState \<Rightarrow> jsstring list" where
  "candidates (ChoosingCandidate _ _ cs) = cs"
| "candidates _ = []"

fun markStartGridCursorIndex :: "inputState \<Rightarrow> nat" where
  "markStartGridCursorIndex (Marking _ _ _ m _ _ _ _ _) = m"
| "markStartGridCursorIndex _ = 0"

fun head :: "inputState \<Rightarrow> jsstring" where
  "head (Marking _ _ _ _ h _ _ _ _) = h"
| "head _ = []"

fun markedText :: "inputState \<Rightarrow> jsstring" where
  "markedText (Marking _ _ _ _ _ m _ _ _) = m"
| "markedText _ = []"

fun tail :: "inputState \<Rightarrow> jsstring" where
  "tail (Marking _ _ _ _ _ _ t _ _) = t"
| "tail _ = []"

fun reading :: "inputState \<Rightarrow> jsstring" where
  "reading (Marking _ _ _ _ _ _ _ r _) = r"
| "reading _ = []"

fun acceptable :: "inputState \<Rightarrow> bool" where
  "acceptable (Marking _ _ _ _ _ _ _ _ a) = a"
| "acceptable _ = False"

text \<open>\<open>inputtingState.evictedText = evictedText\<close>.\<close>

fun setEvictedText :: "jsstring \<Rightarrow> inputState \<Rightarrow> inputState" where
  "setEvictedText e (Inputting b i t _) = Inputting b i t e"
| "setEvictedText e s = s"

section \<open>The collaborators of the key handler\<close>

text \<open>Modelled from the spec: the class \<open>Key\<close> is not among the sources. A key is
  \<open>(ascii_char, key_name, shift_pressed, ctrl_pressed)\<close>; its getters \<open>isCursorKeys\<close> and
  \<open>isDeleteKeys\<close> are taken as they come.\<close>

datatype keyName =
  ASCII | LEFT | RIGHT | UP | DOWN | HOME | END | BACKSPACE | DELETE | RETURN | ESC | SPACE
| TAB | PAGE_UP | PAGE_DOWN | UNKNOWN

record key =
  ascii :: jsstring
  name :: keyName
  shiftPressed :: bool
  ctrlPressed :: bool
  isCursorKeys :: bool
  isDeleteKeys :: bool

datatype bopomofoKeyboardLayout =
  StandardLayout | ETenLayout | HsuLayout | ETen26Layout | HanyuPinyinLayout | IBMLayout

text \<open>Modelled from the spec: the classes \<open>Node\<close> and \<open>NodeAnchor\<close> are not among the
  sources. A node has a key, a candidate list, a currently selected candidate, a score and
  the highest score of its unigrams; an anchor is a node, or none, with a spanning length.
  Nodes are objects of the grid that the key handler's walked path shares with it: an
  anchor holds a reference of type \<open>'n\<close>, and the fields of a node are read from the
  builder at the moment they are used (\<open>nodeOf\<close> below).\<close>

record node =
  nodeKey :: jsstring
  currentKeyValue :: keyValuePair
  nodeCandidates :: "keyValuePair list"
  nodeScore :: real
  highestUnigramScore :: real
  scoreForCandidate :: "jsstring \<Rightarrow> real option"

record 'n nodeAnchor =
  anchorNode :: "'n option"
  spanningLength :: nat

text \<open>\<open>new NodeAnchor()\<close>.\<close>

definition NodeAnchor :: "'n nodeAnchor" where
  "NodeAnchor = \<lparr>anchorNode = None, spanningLength = 0\<rparr>"

text \<open>\<open>BopomofoReadingBuffer\<close>, the syllable assembler, is not among the sources: it is a
  parameter. Its state is of any type \<open>'r\<close>; its operations, the ones the key handler
  calls, are the fields of this record (\<open>syllableComposedString\<close> is
  \<open>reading.syllable.composedString\<close>, \<open>readingClear\<close> is \<open>reading.clear()\<close>).\<close>

record 'r readingOps =
  isValidKey :: "'r \<Rightarrow> jsstring \<Rightarrow> bool"
  combineKey :: "'r \<Rightarrow> jsstring \<Rightarrow> 'r"
  hasToneMarker :: "'r \<Rightarrow> bool"
  hasToneMarkerOnly :: "'r \<Rightarrow> bool"
  isEmpty :: "'r \<Rightarrow> bool"
  syllableComposedString :: "'r \<Rightarrow> jsstring"
  composedString :: "'r \<Rightarrow> jsstring"
  readingClear :: "'r \<Rightarrow> 'r"
  backspace :: "'r \<Rightarrow> 'r"
  keyboardLayout :: "'r \<Rightarrow> bopomofoKeyboardLayout"

text \<open>\<open>BlockReadingBuilder\<close>, its grid and the \<open>Walker\<close> are not among the sources: they
  are parameters. The builder's state (readings, cursor, grid and its nodes) is of any
  type \<open>'b\<close>; its operations, the ones the key handler calls, are the fields of this
  record. \<open>builderLength\<close>, \<open>builderCursorIndex\<close> and \<open>builderClear\<close> are \<open>builder.length\<close>,
  \<open>builder.cursorIndex\<close> and \<open>builder.clear()\<close>; \<open>gridWidth\<close> and the three operations after
  it are those of \<open>builder.grid\<close>; \<open>walkerWalk\<close> is \<open>new Walker(builder.grid).walk(0)\<close>;
  \<open>fixNodeSelectedCandidate\<close> returns the anchor it selected together with the changed
  builder.\<close>

record ('b, 'n) builderOps =
  nodeOf :: "'b \<Rightarrow> 'n \<Rightarrow> node"
  builderLength :: "'b \<Rightarrow> nat"
  builderCursorIndex :: "'b \<Rightarrow> nat"
  setCursorIndex :: "'b \<Rightarrow> nat \<Rightarrow> 'b"
  readings :: "'b \<Rightarrow> jsstring list"
  insertReadingAtCursor :: "'b \<Rightarrow> jsstring \<Rightarrow> 'b"
  deleteReadingBeforeCursor :: "'b \<Rightarrow> 'b"
  deleteReadingAfterCursor :: "'b \<Rightarrow> 'b"
  removeHeadReadings :: "'b \<Rightarrow> nat \<Rightarrow> 'b"
  builderClear :: "'b \<Rightarrow> 'b"
  gridWidth :: "'b \<Rightarrow> nat"
  nodesCrossingOrEndingAt :: "'b \<Rightarrow> nat \<Rightarrow> 'n nodeAnchor list"
  overrideNodeScoreForSelectedCandidate :: "'b \<Rightarrow> nat \<Rightarrow> jsstring \<Rightarrow> real \<Rightarrow> 'b"
  fixNodeSelectedCandidate :: "'b \<Rightarrow> nat \<Rightarrow> jsstring \<Rightarrow> 'n nodeAnchor \<times> 'b"
  walkerWalk :: "'b \<Rightarrow> 'n nodeAnchor list"

text \<open>\<open>UserOverrideModel\<close>, \<open>LocalizedStrings\<close>, lodash's \<open>_.toArray\<close>,
  \<open>BopomofoSyllable\<close>, \<open>parseFloat\<close> and the constant \<open>kSelectedCandidateScore\<close> are not
  among the sources either: they are the remaining fields of the environment, the
  parameter of everything that follows. The time of \<open>new Date().getTime()\<close> is an argument
  of \<open>handle\<close>. The override model reads the walked nodes, so it is given the builder that
  holds them. A reading that \<open>readings[i]\<close> does not find is \<open>None\<close>.\<close>

record ('r, 'b, 'n, 'u) env =
  R :: "'r readingOps"
  B :: "('b, 'n) builderOps"
  suggest :: "'u \<Rightarrow> 'b \<Rightarrow> 'n nodeAnchor list \<Rightarrow> nat \<Rightarrow> int \<Rightarrow> jsstring option"
  observe :: "'u \<Rightarrow> 'b \<Rightarrow> 'n nodeAnchor list \<Rightarrow> nat \<Rightarrow> jsstring \<Rightarrow> int \<Rightarrow> 'u"
  kSelectedCandidateScore :: real
  cursorIsBetweenSyllables :: "jsstring option \<Rightarrow> jsstring option \<Rightarrow> jsstring"
  syllablesRequired :: "nat \<Rightarrow> jsstring"
  syllableMaximum :: "nat \<Rightarrow> jsstring"
  phraseAlreadyExists :: jsstring
  pressEnterToAddThePhrase :: jsstring
  markedWithSyllablesAndStatus :: "jsstring \<Rightarrow> jsstring \<Rightarrow> jsstring \<Rightarrow> jsstring"
  toArray :: "jsstring \<Rightarrow> jsstring list"
  absoluteOrderString :: "jsstring \<Rightarrow> jsstring"
  parseFloat :: "jsstring option \<Rightarrow> jsnum"

text \<open>\<open>languageModel.unigramsForKey(key)\<close> and \<open>languageModel.hasUnigramsForKey(key)\<close>.\<close>

definition lmUnigramsForKey ::
  "('r, 'b, 'n, 'u) env \<Rightarrow> languageModel \<Rightarrow> jsstring \<Rightarrow> error + unigram list" where
  "lmUnigramsForKey E lm k =
     (case lm of
        WebLanguageModel w \<Rightarrow> unigramsForKey (absoluteOrderString E) (parseFloat E) w k
      | OtherLanguageModel u h \<Rightarrow> Inr (u k))"

definition lmHasUnigramsForKey ::
  "('r, 'b, 'n, 'u) env \<Rightarrow> languageModel \<Rightarrow> jsstring \<Rightarrow> bool" where
  "lmHasUnigramsForKey E lm k =
     (case lm of
        WebLanguageModel w \<Rightarrow> hasUnigramsForKey (absoluteOrderString E) w k
      | OtherLanguageModel u h \<Rightarrow> h k)"

section \<open>The key handler (KeyHandler)\<close>

definition kPunctuationListKey :: jsstring where "kPunctuationListKey = js ''`''"
definition kPunctuationListUnigramKey :: jsstring where
  "kPunctuationListUnigramKey = js ''_punctuation_list''"
definition kPunctuationKeyPrefix :: jsstring where "kPunctuationKeyPrefix = js ''_punctuation_''"
definition kLetterPrefix :: jsstring where "kLetterPrefix = js ''_letter_''"
definition kMinValidMarkingReadingCount :: nat where "kMinValidMarkingReadingCount = 2"
definition kMaxValidMarkingReadingCount :: nat where "kMaxValidMarkingReadingCount = 6"
definition kComposingBufferSize :: int where "kComposingBufferSize = 20"
definition kMaxComposingBufferSize :: int where "kMaxComposingBufferSize = 100"
definition kMinComposingBufferSize :: int where "kMinComposingBufferSize = 4"
definition kMaxComposingBufferNeedsToWalkSize :: nat where
  "kMaxComposingBufferNeedsToWalkSize = 10"
definition kNoOverrideThreshold :: real where "kNoOverrideThreshold = - 8"
definition kEpsilon :: real where "kEpsilon = 1 / 1000000"
definition kJoinSeparator :: jsstring where "kJoinSeparator = js ''-''"

text \<open>The fields of a \<open>KeyHandler\<close>, without the trailing underscore of the source
  (\<open>reading_\<close> is \<open>readingBuffer\<close>); the localized strings are in the environment.\<close>

record ('r, 'b, 'n, 'u) keyHandler =
  selectPhraseAfterCursorAsCandidate :: bool
  moveCursorAfterSelection :: bool
  putLowercaseLettersToComposingBuffer :: bool
  escKeyClearsEntireComposingBuffer :: bool
  composingBufferSize :: int
  traditionalMode :: bool
  languageModel :: languageModel
  readingBuffer :: 'r
  builder :: 'b
  walkedNodes :: "'n nodeAnchor list"
  userOverrideModel :: 'u

text \<open>The setter of \<open>composingBufferSize\<close>.\<close>

definition set_composingBufferSize ::
  "int \<Rightarrow> ('r, 'b, 'n, 'u) keyHandler \<Rightarrow> ('r, 'b, 'n, 'u) keyHandler" where
  "set_composingBufferSize v kh =
     (let v1 = (if v > kMaxComposingBufferSize then kMaxComposingBufferSize else v);
          v2 = (if v1 < kMinComposingBufferSize then kMinComposingBufferSize else v1)
      in kh\<lparr>composingBufferSize := v2\<rparr>)"

text \<open>The getter \<open>actualCandidateCursorIndex\<close>; \<open>!cursorIndex\<close> holds of 0 only.\<close>

definition actualCandidateCursorIndex ::
  "('r, 'b, 'n, 'u) env \<Rightarrow> ('r, 'b, 'n, 'u) keyHandler \<Rightarrow> nat" where
  "actualCandidateCursorIndex E kh =
     (let c = builderCursorIndex (B E) (builder kh)
      in if selectPhraseAfterCursorAsCandidate kh
         then (if c < builderLength (B E) (builder kh) then c + 1 else c)
         else (if c = 0 \<and> builderLength (B E) (builder kh) > 0 then c + 1 else c))"

text \<open>The callbacks of \<open>handle\<close>: the calls of \<open>stateCallback\<close> and \<open>errorCallback\<close>, in the
  order they are made. A method of the handler returns whether it consumed the key, the
  calls it made and the handler afterwards. A method that builds a \<open>Marking\<close> state asks
  the language model for unigrams and raises what that call raises: it gives \<open>Inr\<close> of
  what it returns or \<open>Inl\<close> of the error, with the calls made before the error and the
  handler as the error leaves it.\<close>

datatype event = StateCallback inputState | ErrorCallback

type_synonym ('r, 'b, 'n, 'u) outcome = "bool \<times> event list \<times> ('r, 'b, 'n, 'u) keyHandler"

type_synonym ('r, 'b, 'n, 'u) outcomeOrError =
  "(error + bool) \<times> event list \<times> ('r, 'b, 'n, 'u) keyHandler"

definition returned :: "('r, 'b, 'n, 'u) outcome \<Rightarrow> ('r, 'b, 'n, 'u) outcomeOrError" where
  "returned r = (Inr (fst r), snd r)"

definition GetKeyboardLayoutName :: "bopomofoKeyboardLayout \<Rightarrow> jsstring" where
  "GetKeyboardLayoutName layout =
     (if layout = ETenLayout then js ''ETen''
      else if layout = HsuLayout then js ''Hsu''
      else if layout = ETen26Layout then js ''ETen26''
      else if layout = HanyuPinyinLayout then js ''HanyuPinyin''
      else if layout = IBMLayout then js ''IBM''
      else js ''Standard'')"

definition FindHighestScore ::
  "('r, 'b, 'n, 'u) env \<Rightarrow> 'b \<Rightarrow> 'n nodeAnchor list \<Rightarrow> real \<Rightarrow> real" where
  "FindHighestScore E b nodeAnchors epsilon =
     foldl (\<lambda>highestScore anchor.
              case anchorNode anchor of
                None \<Rightarrow> highestScore
              | Some n \<Rightarrow>
                  let sc = highestUnigramScore (nodeOf (B E) b n)
                  in if sc > highestScore then sc else highestScore)
           0 nodeAnchors
     + epsilon"

definition reset :: "('r, 'b, 'n, 'u) env \<Rightarrow> ('r, 'b, 'n, 'u) keyHandler \<Rightarrow> ('r, 'b, 'n, 'u) keyHandler" where
  "reset E kh =
     kh\<lparr>readingBuffer := readingClear (R E) (readingBuffer kh),
        builder := builderClear (B E) (builder kh),
        walkedNodes := []\<rparr>"

subsection \<open>getComposedString\<close>

record composedString =
  csHead :: jsstring
  csTail :: jsstring
  csTooltip :: jsstring

text \<open>The variables of the loop of \<open>getComposedString\<close>.\<close>

record composeVars =
  runningCursor :: nat
  composed :: jsstring
  composedCursor :: nat
  cvTooltip :: jsstring

text \<open>\<open>xs[i]\<close>: \<open>undefined\<close> out of range.\<close>

definition elemAt :: "'a list \<Rightarrow> nat \<Rightarrow> 'a option" where
  "elemAt xs i = (if i < length xs then Some (xs ! i) else None)"

text \<open>One turn of the loop over the walked nodes. The running cursor never passes the
  builder cursor (lemma \<open>runningCursor_le\<close> below), so the subtraction is the source's.\<close>

definition composeStep ::
  "('r, 'b, 'n, 'u) env \<Rightarrow> 'b \<Rightarrow> nat \<Rightarrow> composeVars \<Rightarrow> 'n nodeAnchor \<Rightarrow> composeVars" where
  "composeStep E b builderCursor v anchor =
     (case anchorNode anchor of
        None \<Rightarrow> v
      | Some n \<Rightarrow>
          let value = val (currentKeyValue (nodeOf (B E) b n));
              v1 = v\<lparr>composed := composed v @ value\<rparr>
          in if runningCursor v = builderCursor then v1
             else if runningCursor v + spanningLength anchor \<le> builderCursor
             then v1\<lparr>composedCursor := composedCursor v + length value,
                     runningCursor := runningCursor v + spanningLength anchor\<rparr>
             else
               let distance = builderCursor - runningCursor v;
                   u32Value = toArray E value;
                   cpLen = min distance (length u32Value);
                   actualString = join (take cpLen u32Value) [];
                   v2 = v1\<lparr>composedCursor := composedCursor v + length actualString,
                           runningCursor := runningCursor v + distance\<rparr>
               in if length u32Value < spanningLength anchor
                  then v2\<lparr>cvTooltip :=
                            cursorIsBetweenSyllables E
                              (elemAt (readings (B E) b) (builderCursor - 1))
                              (elemAt (readings (B E) b) builderCursor)\<rparr>
                  else v2)"

definition composeLoop ::
  "('r, 'b, 'n, 'u) env \<Rightarrow> 'b \<Rightarrow> nat \<Rightarrow> 'n nodeAnchor list \<Rightarrow> composeVars" where
  "composeLoop E b builderCursor anchors =
     foldl (composeStep E b builderCursor)
       \<lparr>runningCursor = 0, composed = [], composedCursor = 0, cvTooltip = []\<rparr> anchors"

definition getComposedString ::
  "('r, 'b, 'n, 'u) env \<Rightarrow> ('r, 'b, 'n, 'u) keyHandler \<Rightarrow> nat \<Rightarrow> composedString" where
  "getComposedString E kh builderCursor =
     (let v = composeLoop E (builder kh) builderCursor (walkedNodes kh)
      in \<lparr>csHead = substring (composed v) 0 (composedCursor v),
          csTail = substring (composed v) (composedCursor v) (length (composed v)),
          csTooltip = cvTooltip v\<rparr>)"

subsection \<open>Building states\<close>

definition buildInputtingState ::
  "('r, 'b, 'n, 'u) env \<Rightarrow> ('r, 'b, 'n, 'u) keyHandler \<Rightarrow> inputState" where
  "buildInputtingState E kh =
     (let cs = getComposedString E kh (builderCursorIndex (B E) (builder kh));
          hd' = csHead cs;
          rd = composedString (R E) (readingBuffer kh);
          tl' = csTail cs
      in Inputting (hd' @ rd @ tl') (length hd' + length rd) (csTooltip cs) [])"

definition MarkedPhraseExists ::
  "('r, 'b, 'n, 'u) env \<Rightarrow> languageModel \<Rightarrow> jsstring \<Rightarrow> jsstring \<Rightarrow> error + bool" where
  "MarkedPhraseExists E lm readingValue marked =
     (case lmUnigramsForKey E lm readingValue of
        Inl e \<Rightarrow> Inl e
      | Inr phrases \<Rightarrow> Inr (list_ex (\<lambda>u. val (keyValue u) = marked) phrases))"

text \<open>\<open>buildMarkingState\<close>; \<open>validation\<close> is the block that sets \<open>isValid\<close> and \<open>status\<close>,
  which asks the language model only for a range of 2 to 6 readings.\<close>

definition buildMarkingState ::
  "('r, 'b, 'n, 'u) env \<Rightarrow> ('r, 'b, 'n, 'u) keyHandler \<Rightarrow> nat \<Rightarrow> error + inputState" where
  "buildMarkingState E kh beginCursorIndex =
     (let cur = builderCursorIndex (B E) (builder kh);
          from0 = getComposedString E kh beginCursorIndex;
          to0 = getComposedString E kh cur;
          composedStringCursorIndex = length (csHead to0);
          composed' = csHead to0 @ csTail to0;
          swap = beginCursorIndex > cur;
          from = (if swap then to0 else from0);
          to = (if swap then from0 else to0);
          fromIndex = (if swap then cur else beginCursorIndex);
          toIndex = (if swap then beginCursorIndex else cur);
          hd' = csHead from;
          marked = substringFrom (csHead to) (length (csHead from));
          tl' = csTail to;
          rds = slice (readings (B E) (builder kh)) fromIndex toIndex;
          readingUiText = join rds (js '' '');
          readingValue = join rds (js ''-'');
          validation =
            (if length rds < kMinValidMarkingReadingCount
             then Inr (False, syllablesRequired E kMinValidMarkingReadingCount)
             else if length rds > kMaxValidMarkingReadingCount
             then Inr (False, syllableMaximum E kMaxValidMarkingReadingCount)
             else (case MarkedPhraseExists E (languageModel kh) readingValue marked of
                     Inl e \<Rightarrow> Inl e
                   | Inr exists \<Rightarrow>
                       if exists then Inr (False, phraseAlreadyExists E)
                       else Inr (True, pressEnterToAddThePhrase E)))
      in case validation of
           Inl e \<Rightarrow> Inl e
         | Inr (isValid, status) \<Rightarrow>
             Inr (Marking composed' composedStringCursorIndex
                    (markedWithSyllablesAndStatus E marked readingUiText status)
                    beginCursorIndex hd' marked tl' readingValue isValid))"

text \<open>The candidates of the nodes at the candidate cursor, longer keys first (the sort
  is stable).\<close>

definition keyLength :: "('r, 'b, 'n, 'u) env \<Rightarrow> 'b \<Rightarrow> 'n nodeAnchor \<Rightarrow> nat" where
  "keyLength E b a = (case anchorNode a of None \<Rightarrow> 0 | Some n \<Rightarrow> length (nodeKey (nodeOf (B E) b n)))"

definition buildChoosingCandidateState ::
  "('r, 'b, 'n, 'u) env \<Rightarrow> ('r, 'b, 'n, 'u) keyHandler \<Rightarrow> inputState \<Rightarrow> inputState" where
  "buildChoosingCandidateState E kh nonEmptyState =
     (let anchoredNodes = nodesCrossingOrEndingAt (B E) (builder kh)
                            (actualCandidateCursorIndex E kh);
          sorted' = sort_key (\<lambda>a. - int (keyLength E (builder kh) a)) anchoredNodes;
          cands = concat (map (\<lambda>a. case anchorNode a of
                                       None \<Rightarrow> []
                                     | Some n \<Rightarrow> map val (nodeCandidates (nodeOf (B E) (builder kh) n)))
                              sorted')
      in ChoosingCandidate (composingBuffer nonEmptyState) (cursorIndex nonEmptyState) cands)"

subsection \<open>Walking, evicting, pinning\<close>

definition walk :: "('r, 'b, 'n, 'u) env \<Rightarrow> ('r, 'b, 'n, 'u) keyHandler \<Rightarrow> ('r, 'b, 'n, 'u) keyHandler" where
  "walk E kh = kh\<lparr>walkedNodes := walkerWalk (B E) (builder kh)\<rparr>"

text \<open>\<open>popEvictedTextAndWalk\<close> returns the evicted text; the handler is changed.\<close>

definition popEvictedTextAndWalk ::
  "('r, 'b, 'n, 'u) env \<Rightarrow> ('r, 'b, 'n, 'u) keyHandler \<Rightarrow> jsstring \<times> ('r, 'b, 'n, 'u) keyHandler" where
  "popEvictedTextAndWalk E kh =
     (if int (gridWidth (B E) (builder kh)) > composingBufferSize kh \<and> length (walkedNodes kh) \<noteq> 0
      then
        let anchor = hd (walkedNodes kh);
            evicted = (case anchorNode anchor of
                         None \<Rightarrow> []
                       | Some n \<Rightarrow> val (currentKeyValue (nodeOf (B E) (builder kh) n)));
            kh1 = kh\<lparr>builder := removeHeadReadings (B E) (builder kh) (spanningLength anchor)\<rparr>
        in (evicted, walk E kh1)
      else ([], walk E kh))"

text \<open>The two statements that follow each other wherever the handler takes a reading:
  \<open>builder.insertReadingAtCursor(key); let evictedText = popEvictedTextAndWalk()\<close>.\<close>

definition insertAndEvict ::
  "('r, 'b, 'n, 'u) env \<Rightarrow> jsstring \<Rightarrow> ('r, 'b, 'n, 'u) keyHandler \<Rightarrow>
   jsstring \<times> ('r, 'b, 'n, 'u) keyHandler" where
  "insertAndEvict E k kh =
     popEvictedTextAndWalk E (kh\<lparr>builder := insertReadingAtCursor (B E) (builder kh) k\<rparr>)"

fun fixNodesLoop ::
  "('r, 'b, 'n, 'u) env \<Rightarrow> nat \<Rightarrow> nat \<Rightarrow> 'b \<Rightarrow> 'n nodeAnchor list \<Rightarrow> 'b" where
  "fixNodesLoop E width index b [] = b"
| "fixNodesLoop E width index b (a # as) =
     (if index \<ge> width - kMaxComposingBufferNeedsToWalkSize then b
      else (case anchorNode a of
              None \<Rightarrow> fixNodesLoop E width index b as
            | Some n \<Rightarrow>
                let b' = (if nodeScore (nodeOf (B E) b n) < kSelectedCandidateScore E
                          then snd (fixNodeSelectedCandidate (B E) b (index + spanningLength a)
                                      (val (currentKeyValue (nodeOf (B E) b n))))
                          else b)
                in fixNodesLoop E width (index + spanningLength a) b' as))"

definition fixNodesIfRequired ::
  "('r, 'b, 'n, 'u) env \<Rightarrow> ('r, 'b, 'n, 'u) keyHandler \<Rightarrow> ('r, 'b, 'n, 'u) keyHandler" where
  "fixNodesIfRequired E kh =
     (let width = gridWidth (B E) (builder kh)
      in if width > kMaxComposingBufferNeedsToWalkSize
         then kh\<lparr>builder := fixNodesLoop E width 0 (builder kh) (walkedNodes kh)\<rparr>
         else kh)"

text \<open>The loop of \<open>pinNode\<close> that finds the end of the node owning the candidate.\<close>

fun nextPositionLoop :: "nat \<Rightarrow> nat \<Rightarrow> 'n nodeAnchor list \<Rightarrow> nat" where
  "nextPositionLoop cursor nextPosition [] = nextPosition"
| "nextPositionLoop cursor nextPosition (a # as) =
     (if nextPosition \<ge> cursor then nextPosition
      else nextPositionLoop cursor (nextPosition + spanningLength a) as)"

definition pinNode ::
  "('r, 'b, 'n, 'u) env \<Rightarrow> int \<Rightarrow> jsstring \<Rightarrow> bool \<Rightarrow> ('r, 'b, 'n, 'u) keyHandler \<Rightarrow>
   ('r, 'b, 'n, 'u) keyHandler" where
  "pinNode E now candidate useMoveCursorAfterSelectionSetting kh =
     (let cursor = actualCandidateCursorIndex E kh;
          sel = fixNodeSelectedCandidate (B E) (builder kh) cursor candidate;
          kh1 = kh\<lparr>builder := snd sel\<rparr>;
          sc = (case anchorNode (fst sel) of
                  None \<Rightarrow> None
                | Some n \<Rightarrow> scoreForCandidate (nodeOf (B E) (builder kh1) n) candidate);
          kh2 = (case sc of
                   None \<Rightarrow> kh1
                 | Some x \<Rightarrow>
                     if x > kNoOverrideThreshold
                     then kh1\<lparr>userOverrideModel :=
                                observe E (userOverrideModel kh1) (builder kh1) (walkedNodes kh1)
                                  cursor candidate now\<rparr>
                     else kh1);
          kh3 = walk E kh2
      in if useMoveCursorAfterSelectionSetting \<and> moveCursorAfterSelection kh3
         then
           let nextPosition = nextPositionLoop cursor 0 (walkedNodes kh3)
           in if nextPosition \<le> builderLength (B E) (builder kh3)
              then kh3\<lparr>builder := setCursorIndex (B E) (builder kh3) nextPosition\<rparr>
              else kh3
         else kh3)"

subsection \<open>handlePunctuation, handleTabKey, handleCursorKeys, handleDeleteKeys\<close>

definition handlePunctuation ::
  "('r, 'b, 'n, 'u) env \<Rightarrow> jsstring \<Rightarrow> ('r, 'b, 'n, 'u) keyHandler \<Rightarrow> ('r, 'b, 'n, 'u) outcome" where
  "handlePunctuation E punctuationUnigramKey kh =
     (if \<not> lmHasUnigramsForKey E (languageModel kh) punctuationUnigramKey then (False, [], kh)
      else if \<not> isEmpty (R E) (readingBuffer kh)
      then (True, [ErrorCallback, StateCallback (buildInputtingState E kh)], kh)
      else
        let ev = insertAndEvict E punctuationUnigramKey kh;
            kh2 = snd ev;
            inputtingState = setEvictedText (fst ev) (buildInputtingState E kh2)
        in if traditionalMode kh2 \<and> isEmpty (R E) (readingBuffer kh2)
           then
             let candidateState = buildChoosingCandidateState E kh2 inputtingState;
                 kh3 = reset E kh2
             in if length (candidates candidateState) = 1
                then (True, [StateCallback inputtingState,
                             StateCallback (Committing (hd (candidates candidateState)))], kh3)
                else (True, [StateCallback inputtingState, StateCallback candidateState], kh3)
           else (True, [StateCallback inputtingState], kh2))"

text \<open>The loops of \<open>handleTabKey\<close>: the first walked node that ends at or after the
  cursor, and the index of the candidate to pin when the node was chosen by hand before.\<close>

fun findCurrentNode :: "nat \<Rightarrow> nat \<Rightarrow> 'n nodeAnchor list \<Rightarrow> 'n nodeAnchor" where
  "findCurrentNode cursor len [] = NodeAnchor"
| "findCurrentNode cursor len (a # as) =
     (if len + spanningLength a \<ge> cursor then a
      else findCurrentNode cursor (len + spanningLength a) as)"

fun tabLoop :: "jsstring option \<Rightarrow> bool \<Rightarrow> nat \<Rightarrow> nat \<Rightarrow> jsstring list \<Rightarrow> nat" where
  "tabLoop currentValue shift n currentIndex [] = currentIndex"
| "tabLoop currentValue shift n currentIndex (c # cs) =
     (if Some c = currentValue
      then (if shift then (if currentIndex = 0 then n - 1 else currentIndex - 1)
            else currentIndex + 1)
      else tabLoop currentValue shift n (currentIndex + 1) cs)"

definition handleTabKey ::
  "('r, 'b, 'n, 'u) env \<Rightarrow> int \<Rightarrow> key \<Rightarrow> inputState \<Rightarrow> ('r, 'b, 'n, 'u) keyHandler \<Rightarrow>
   ('r, 'b, 'n, 'u) outcome" where
  "handleTabKey E now k state kh =
     (if \<not> isInputting state then (True, [ErrorCallback], kh)
      else if \<not> isEmpty (R E) (readingBuffer kh) then (True, [ErrorCallback], kh)
      else
        let cands = candidates (buildChoosingCandidateState E kh state)
        in if length cands = 0 then (True, [ErrorCallback], kh)
           else
             let cursor = actualCandidateCursorIndex E kh;
                 currentNode = findCurrentNode cursor 0 (walkedNodes kh);
                 currentValue = (case anchorNode currentNode of
                                   None \<Rightarrow> None
                                 | Some n \<Rightarrow> Some (val (currentKeyValue (nodeOf (B E) (builder kh) n))));
                 sc = (case anchorNode currentNode of
                         None \<Rightarrow> 0
                       | Some n \<Rightarrow> nodeScore (nodeOf (B E) (builder kh) n));
                 i0 = (if sc < kSelectedCandidateScore E
                       then (if Some (hd cands) = currentValue
                             then (if shiftPressed k then length cands - 1 else 1)
                             else 0)
                       else tabLoop currentValue (shiftPressed k) (length cands) 0 cands);
                 currentIndex = (if i0 \<ge> length cands then 0 else i0);
                 kh1 = pinNode E now (cands ! currentIndex) False kh
             in (True, [StateCallback (buildInputtingState E kh1)], kh1))"

definition handleCursorKeys ::
  "('r, 'b, 'n, 'u) env \<Rightarrow> key \<Rightarrow> inputState \<Rightarrow> ('r, 'b, 'n, 'u) keyHandler \<Rightarrow>
   ('r, 'b, 'n, 'u) outcomeOrError" where
  "handleCursorKeys E k state kh =
     (if \<not> isInputting state \<and> \<not> isMarking state then (Inr False, [], kh)
      else
        let c = builderCursorIndex (B E) (builder kh);
            markBeginCursorIndex = (if isMarking state then markStartGridCursorIndex state else c)
        in if \<not> isEmpty (R E) (readingBuffer kh)
           then (Inr True, [ErrorCallback, StateCallback (buildInputtingState E kh)], kh)
           else
             let mv = (if name k = LEFT
                       then (if c > 0 then (setCursorIndex (B E) (builder kh) (c - 1), True)
                             else (builder kh, False))
                       else if name k = RIGHT
                       then (if c < builderLength (B E) (builder kh)
                             then (setCursorIndex (B E) (builder kh) (c + 1), True)
                             else (builder kh, False))
                       else if name k = HOME then (setCursorIndex (B E) (builder kh) 0, True)
                       else if name k = END
                       then (setCursorIndex (B E) (builder kh) (builderLength (B E) (builder kh)), True)
                       else (builder kh, False));
                 kh1 = kh\<lparr>builder := fst mv\<rparr>;
                 errs = (if \<not> snd mv then [ErrorCallback] else [])
             in if shiftPressed k \<and> builderCursorIndex (B E) (builder kh1) \<noteq> markBeginCursorIndex
                then (case buildMarkingState E kh1 markBeginCursorIndex of
                        Inl e \<Rightarrow> (Inl e, errs, kh1)
                      | Inr marking \<Rightarrow> (Inr True, errs @ [StateCallback marking], kh1))
                else (Inr True, errs @ [StateCallback (buildInputtingState E kh1)], kh1))"

text \<open>The last statement of \<open>handleDeleteKeys\<close>.\<close>

definition emptyOrInputting ::
  "('r, 'b, 'n, 'u) env \<Rightarrow> ('r, 'b, 'n, 'u) keyHandler \<Rightarrow> event" where
  "emptyOrInputting E kh =
     (if isEmpty (R E) (readingBuffer kh) \<and> builderLength (B E) (builder kh) = 0
      then StateCallback EmptyIgnoringPrevious
      else StateCallback (buildInputtingState E kh))"

definition handleDeleteKeys ::
  "('r, 'b, 'n, 'u) env \<Rightarrow> key \<Rightarrow> inputState \<Rightarrow> ('r, 'b, 'n, 'u) keyHandler \<Rightarrow>
   ('r, 'b, 'n, 'u) outcome" where
  "handleDeleteKeys E k state kh =
     (if \<not> isNotEmpty state then (False, [], kh)
      else if hasToneMarkerOnly (R E) (readingBuffer kh)
      then
        let kh1 = kh\<lparr>readingBuffer := readingClear (R E) (readingBuffer kh)\<rparr>
        in (True, [emptyOrInputting E kh1], kh1)
      else if isEmpty (R E) (readingBuffer kh)
      then
        (if name k = BACKSPACE \<and> builderCursorIndex (B E) (builder kh) > 0
         then
           let kh1 = walk E (kh\<lparr>builder := deleteReadingBeforeCursor (B E) (builder kh)\<rparr>)
           in (True, [emptyOrInputting E kh1], kh1)
         else if name k = DELETE
                 \<and> builderCursorIndex (B E) (builder kh) < builderLength (B E) (builder kh)
         then
           let kh1 = walk E (kh\<lparr>builder := deleteReadingAfterCursor (B E) (builder kh)\<rparr>)
           in (True, [emptyOrInputting E kh1], kh1)
         else (True, [ErrorCallback, StateCallback (buildInputtingState E kh)], kh))
      else if name k = BACKSPACE
      then
        let kh1 = kh\<lparr>readingBuffer := backspace (R E) (readingBuffer kh)\<rparr>
        in (True, [emptyOrInputting E kh1], kh1)
      else (True, [ErrorCallback, emptyOrInputting E kh], kh))"

subsection \<open>handle\<close>

text \<open>The blocks of \<open>handle\<close>, in the order of the source. First the block that composes
  the reading (\<open>if (shouldComposeReading)\<close>).\<close>

definition applyOverride ::
  "('r, 'b, 'n, 'u) env \<Rightarrow> int \<Rightarrow> ('r, 'b, 'n, 'u) keyHandler \<Rightarrow> ('r, 'b, 'n, 'u) keyHandler" where
  "applyOverride E now kh =
     (case suggest E (userOverrideModel kh) (builder kh) (walkedNodes kh)
             (builderCursorIndex (B E) (builder kh)) now of
        None \<Rightarrow> kh
      | Some overrideValue \<Rightarrow>
          if length overrideValue \<noteq> 0
          then
            let cursor = actualCandidateCursorIndex E kh;
                nodes = nodesCrossingOrEndingAt (B E) (builder kh) cursor;
                highestScore = FindHighestScore E (builder kh) nodes kEpsilon
            in kh\<lparr>builder := overrideNodeScoreForSelectedCandidate (B E) (builder kh) cursor
                                  overrideValue highestScore\<rparr>
          else kh)"

definition composeReading ::
  "('r, 'b, 'n, 'u) env \<Rightarrow> int \<Rightarrow> ('r, 'b, 'n, 'u) keyHandler \<Rightarrow> ('r, 'b, 'n, 'u) outcome" where
  "composeReading E now kh =
     (let syllable = syllableComposedString (R E) (readingBuffer kh);
          kh1 = kh\<lparr>readingBuffer := readingClear (R E) (readingBuffer kh)\<rparr>
      in if \<not> lmHasUnigramsForKey E (languageModel kh1) syllable
         then (if builderLength (B E) (builder kh1) = 0
               then (True, [ErrorCallback, StateCallback EmptyIgnoringPrevious], kh1)
               else (True, [ErrorCallback, StateCallback (buildInputtingState E kh1)], kh1))
         else
           let ev = insertAndEvict E syllable kh1;
               kh3 = snd ev;
               kh4 = (if \<not> traditionalMode kh3 then applyOverride E now kh3 else kh3);
               kh5 = fixNodesIfRequired E kh4;
               inputtingState = setEvictedText (fst ev) (buildInputtingState E kh5)
           in if traditionalMode kh5
              then
                let choosingCandidates = buildChoosingCandidateState E kh5 inputtingState;
                    kh6 = reset E kh5
                in if length (candidates choosingCandidates) = 1
                   then (True, [StateCallback inputtingState,
                                StateCallback (Committing (hd (candidates choosingCandidates))),
                                StateCallback Empty], kh6)
                   else (True, [StateCallback inputtingState, StateCallback choosingCandidates], kh6)
              else (True, [StateCallback inputtingState], kh5))"

definition handleShiftSpace ::
  "('r, 'b, 'n, 'u) env \<Rightarrow> ('r, 'b, 'n, 'u) keyHandler \<Rightarrow> ('r, 'b, 'n, 'u) outcome" where
  "handleShiftSpace E kh =
     (if putLowercaseLettersToComposingBuffer kh
      then
        let ev = insertAndEvict E (js '' '') kh;
            kh2 = snd ev
        in (True, [StateCallback (setEvictedText (fst ev) (buildInputtingState E kh2))], kh2)
      else
        (True,
         (if builderLength (B E) (builder kh) \<noteq> 0
          then [StateCallback (Committing (composingBuffer (buildInputtingState E kh)))]
          else [])
         @ [StateCallback (Committing (js '' ''))],
         reset E kh))"

definition handleEsc ::
  "('r, 'b, 'n, 'u) env \<Rightarrow> inputState \<Rightarrow> ('r, 'b, 'n, 'u) keyHandler \<Rightarrow> ('r, 'b, 'n, 'u) outcome" where
  "handleEsc E state kh =
     (if \<not> isNotEmpty state then (False, [], kh)
      else if escKeyClearsEntireComposingBuffer kh
      then (True, [StateCallback EmptyIgnoringPrevious], reset E kh)
      else if \<not> isEmpty (R E) (readingBuffer kh)
      then
        let kh1 = kh\<lparr>readingBuffer := readingClear (R E) (readingBuffer kh)\<rparr>
        in if builderLength (B E) (builder kh1) = 0
           then (True, [StateCallback EmptyIgnoringPrevious], kh1)
           else (True, [StateCallback (buildInputtingState E kh1)], kh1)
      else (True, [StateCallback (buildInputtingState E kh)], kh))"

definition handleReturn ::
  "('r, 'b, 'n, 'u) env \<Rightarrow> inputState \<Rightarrow> ('r, 'b, 'n, 'u) keyHandler \<Rightarrow>
   ('r, 'b, 'n, 'u) outcomeOrError" where
  "handleReturn E state kh =
     (if \<not> isNotEmpty state then (Inr False, [], kh)
      else if \<not> isEmpty (R E) (readingBuffer kh)
      then (Inr True, [ErrorCallback, StateCallback (buildInputtingState E kh)], kh)
      else if isMarking state
      then
        (if acceptable state
         then
           let kh1 = (case languageModel kh of
                        WebLanguageModel w \<Rightarrow>
                          kh\<lparr>languageModel :=
                               WebLanguageModel (addUserPhrase (reading state) (markedText state) w)\<rparr>
                      | OtherLanguageModel u h \<Rightarrow> kh)
           in (Inr True, [StateCallback (buildInputtingState E kh1)], kh1)
         else (case buildMarkingState E kh (markStartGridCursorIndex state) of
                 Inl e \<Rightarrow> (Inl e, [ErrorCallback], kh)
               | Inr marking \<Rightarrow> (Inr True, [ErrorCallback, StateCallback marking], kh)))
      else (Inr True, [StateCallback (Committing (composingBuffer (buildInputtingState E kh)))],
            reset E kh))"

definition handleBacktick ::
  "('r, 'b, 'n, 'u) env \<Rightarrow> ('r, 'b, 'n, 'u) keyHandler \<Rightarrow> ('r, 'b, 'n, 'u) outcome" where
  "handleBacktick E kh =
     (if isEmpty (R E) (readingBuffer kh)
      then
        let ev = insertAndEvict E kPunctuationListUnigramKey kh;
            kh2 = snd ev;
            inputtingState = setEvictedText (fst ev) (buildInputtingState E kh2);
            choosingCandidateState = buildChoosingCandidateState E kh2 inputtingState
        in (True, [StateCallback inputtingState, StateCallback choosingCandidateState], kh2)
      else (True, [ErrorCallback], kh))"

text \<open>\<open>simpleAscii.length === 1 && simpleAscii >= "A" && simpleAscii <= "Z"\<close>.\<close>

definition isUpperCaseLetter :: "jsstring \<Rightarrow> bool" where
  "isUpperCaseLetter s = (case s of [c] \<Rightarrow> 0x41 \<le> c \<and> c \<le> 0x5A | _ \<Rightarrow> False)"

text \<open>The end of \<open>handle\<close>: no key is handled.\<close>

definition handleNothing ::
  "('r, 'b, 'n, 'u) env \<Rightarrow> inputState \<Rightarrow> ('r, 'b, 'n, 'u) keyHandler \<Rightarrow> ('r, 'b, 'n, 'u) outcome" where
  "handleNothing E state kh =
     (if isNotEmpty state
      then (True, [ErrorCallback, StateCallback (buildInputtingState E kh)], kh)
      else (False, [], kh))"

text \<open>The block \<open>if (key.ascii != "")\<close> and what follows it.\<close>

definition handleAscii ::
  "('r, 'b, 'n, 'u) env \<Rightarrow> key \<Rightarrow> inputState \<Rightarrow> ('r, 'b, 'n, 'u) keyHandler \<Rightarrow>
   ('r, 'b, 'n, 'u) outcome" where
  "handleAscii E k state kh =
     (if ascii k \<noteq> []
      then
        let chrStr = ascii k;
            p1 = handlePunctuation E
                   (kPunctuationKeyPrefix
                    @ GetKeyboardLayoutName (keyboardLayout (R E) (readingBuffer kh))
                    @ js ''_'' @ chrStr) kh
        in if fst p1 then p1
           else
             let p2 = handlePunctuation E (kPunctuationKeyPrefix @ chrStr) kh
             in if fst p2 then p2
                else if isUpperCaseLetter (ascii k)
                then
                  (if putLowercaseLettersToComposingBuffer kh
                   then
                     let p3 = handlePunctuation E (kLetterPrefix @ chrStr) kh
                     in (True, fst (snd p3), snd (snd p3))
                   else if \<not> isNotEmpty state then (False, [], kh)
                   else (True,
                         [StateCallback (Committing (composingBuffer (buildInputtingState E kh))),
                          StateCallback (Committing chrStr)],
                         reset E kh))
                else handleNothing E state kh
      else handleNothing E state kh)"

text \<open>\<open>handle\<close> after the reading buffer has taken the key or refused it.\<close>

definition handleAfterReading ::
  "('r, 'b, 'n, 'u) env \<Rightarrow> int \<Rightarrow> key \<Rightarrow> inputState \<Rightarrow> bool \<Rightarrow> ('r, 'b, 'n, 'u) keyHandler \<Rightarrow>
   ('r, 'b, 'n, 'u) outcomeOrError" where
  "handleAfterReading E now k state keyConsumedByReading kh =
     (let r = readingBuffer kh;
          shouldComposeReading =
            ((hasToneMarker (R E) r \<and> \<not> hasToneMarkerOnly (R E) r)
             \<or> (\<not> isEmpty (R E) r \<and> name k = SPACE))
      in if shouldComposeReading then returned (composeReading E now kh)
         else if keyConsumedByReading
         then (Inr True, [StateCallback (buildInputtingState E kh)], kh)
         else if name k = SPACE \<and> shiftPressed k then returned (handleShiftSpace E kh)
         else if (name k = SPACE \<or> name k = DOWN) \<and> isNotEmpty state \<and> isEmpty (R E) r
         then (Inr True, [StateCallback (buildChoosingCandidateState E kh state)], kh)
         else if name k = ESC then returned (handleEsc E state kh)
         else if name k = TAB then returned (handleTabKey E now k state kh)
         else if isCursorKeys k then handleCursorKeys E k state kh
         else if isDeleteKeys k then returned (handleDeleteKeys E k state kh)
         else if name k = RETURN then handleReturn E state kh
         else if ascii k = kPunctuationListKey
                 \<and> lmHasUnigramsForKey E (languageModel kh) kPunctuationListUnigramKey
         then returned (handleBacktick E kh)
         else returned (handleAscii E k state kh))"

definition handle ::
  "('r, 'b, 'n, 'u) env \<Rightarrow> int \<Rightarrow> key \<Rightarrow> inputState \<Rightarrow> ('r, 'b, 'n, 'u) keyHandler \<Rightarrow>
   ('r, 'b, 'n, 'u) outcomeOrError" where
  "handle E now k state kh =
     (let simpleAscii = ascii k
      in if simpleAscii = js ''Shift'' \<or> simpleAscii = js ''Meta'' \<or> simpleAscii = js ''Alt''
         then (Inr False, [], kh)
         else if isValidKey (R E) (readingBuffer kh) simpleAscii
         then
           let kh1 = kh\<lparr>readingBuffer := combineKey (R E) (readingBuffer kh) simpleAscii\<rparr>
           in if \<not> hasToneMarker (R E) (readingBuffer kh1)
              then (Inr True, [StateCallback (buildInputtingState E kh1)], kh1)
              else handleAfterReading E now k state True kh1
         else handleAfterReading E now k state False kh)"

text \<open>The other methods of the handler that call \<open>stateCallback\<close>.\<close>

definition candidateSelected ::
  "('r, 'b, 'n, 'u) env \<Rightarrow> int \<Rightarrow> jsstring \<Rightarrow> ('r, 'b, 'n, 'u) keyHandler \<Rightarrow>
   event list \<times> ('r, 'b, 'n, 'u) keyHandler" where
  "candidateSelected E now candidate kh =
     (if traditionalMode kh then ([StateCallback (Committing candidate)], reset E kh)
      else
        let kh1 = pinNode E now candidate True kh
        in ([StateCallback (buildInputtingState E kh1)], kh1))"

definition candidatePanelCancelled ::
  "('r, 'b, 'n, 'u) env \<Rightarrow> ('r, 'b, 'n, 'u) keyHandler \<Rightarrow> event list \<times> ('r, 'b, 'n, 'u) keyHandler" where
  "candidatePanelCancelled E kh =
     (if traditionalMode kh then ([StateCallback EmptyIgnoringPrevious], reset E kh)
      else ([StateCallback (buildInputtingState E kh)], kh))"

text \<open>A sequence of calls of \<open>handle\<close>, as the input controller makes them
  (\<open>mcbopomofoKeyEvent\<close>, \<open>enterNewState\<close>): each call is given a key with its time and
  the state the controller holds, which is afterwards the state of the last call of
  \<open>stateCallback\<close>, also when the call of \<open>handle\<close> ends with an error. The calls made to
  the callbacks are collected. (In a \<open>ChoosingCandidate\<close> state the controller asks its
  candidate controller before the handler; that part is left out.)\<close>

fun lastState :: "inputState \<Rightarrow> event list \<Rightarrow> inputState" where
  "lastState st [] = st"
| "lastState st (StateCallback s # es) = lastState s es"
| "lastState st (ErrorCallback # es) = lastState st es"

fun handleAll ::
  "('r, 'b, 'n, 'u) env \<Rightarrow> (int \<times> key) list \<Rightarrow> inputState \<Rightarrow> ('r, 'b, 'n, 'u) keyHandler \<Rightarrow>
   event list \<times> inputState \<times> ('r, 'b, 'n, 'u) keyHandler" where
  "handleAll E [] st kh = ([], st, kh)"
| "handleAll E ((now, k) # rest) st kh =
     (let r = handle E now k st kh;
          rs = handleAll E rest (lastState st (fst (snd r))) (snd (snd r))
      in (fst (snd r) @ fst rs, snd rs))"

section \<open>A small environment to run the handler on\<close>

text \<open>
  The theorems below hold for every environment. To run the definitions on concrete
  inputs, this section gives one: a syllable assembler with one letter key \<open>x\<close> and one
  tone key \<open>3\<close>; a builder that keeps the readings and the cursor; a walker that goes
  through the readings from the left and takes two readings as one node when the table
  has their joined key, one reading otherwise (a node's value is the table's value for
  its key, or the key itself); and a language model that knows the keys of the table.
  Nodes are kept by value.
\<close>

definition exR :: "jsstring readingOps" where
  "exR = \<lparr>isValidKey = (\<lambda>r k. k = js ''x'' \<or> k = js ''3''),
          combineKey = (\<lambda>r k. r @ k),
          hasToneMarker = (\<lambda>r. 0x33 \<in> set r),
          hasToneMarkerOnly = (\<lambda>r. r = js ''3''),
          isEmpty = (\<lambda>r. r = []),
          syllableComposedString = (\<lambda>r. r),
          composedString = (\<lambda>r. r),
          readingClear = (\<lambda>r. []),
          backspace = butlast,
          keyboardLayout = (\<lambda>r. StandardLayout)\<rparr>"

record exBuilder =
  exReadings :: "jsstring list"
  exCursor :: nat

type_synonym table = "(jsstring \<times> jsstring) list"

definition exNode :: "table \<Rightarrow> jsstring \<Rightarrow> node" where
  "exNode t k =
     (let kv = KeyValuePair k (case map_of t k of Some v \<Rightarrow> v | None \<Rightarrow> k)
      in \<lparr>nodeKey = k, currentKeyValue = kv, nodeCandidates = [kv], nodeScore = 0,
          highestUnigramScore = 0, scoreForCandidate = (\<lambda>c. Some 0)\<rparr>)"

definition exAnchor :: "table \<Rightarrow> jsstring \<Rightarrow> nat \<Rightarrow> node nodeAnchor" where
  "exAnchor t k n = \<lparr>anchorNode = Some (exNode t k), spanningLength = n\<rparr>"

fun exWalk :: "table \<Rightarrow> jsstring list \<Rightarrow> node nodeAnchor list" where
  "exWalk t [] = []"
| "exWalk t [r] = [exAnchor t r 1]"
| "exWalk t (r1 # r2 # rs) =
     (if map_of t (r1 @ js ''-'' @ r2) \<noteq> None
      then exAnchor t (r1 @ js ''-'' @ r2) 2 # exWalk t rs
      else exAnchor t r1 1 # exWalk t (r2 # rs))"

definition exB :: "table \<Rightarrow> (exBuilder, node) builderOps" where
  "exB t =
     \<lparr>nodeOf = (\<lambda>b n. n),
      builderLength = (\<lambda>b. length (exReadings b)),
      builderCursorIndex = exCursor,
      setCursorIndex = (\<lambda>b i. b\<lparr>exCursor := min i (length (exReadings b))\<rparr>),
      readings = exReadings,
      insertReadingAtCursor =
        (\<lambda>b k. \<lparr>exReadings = take (exCursor b) (exReadings b) @ k # drop (exCursor b) (exReadings b),
                 exCursor = exCursor b + 1\<rparr>),
      deleteReadingBeforeCursor =
        (\<lambda>b. if exCursor b = 0 then b
              else \<lparr>exReadings = take (exCursor b - 1) (exReadings b) @ drop (exCursor b) (exReadings b),
                    exCursor = exCursor b - 1\<rparr>),
      deleteReadingAfterCursor =
        (\<lambda>b. b\<lparr>exReadings := take (exCursor b) (exReadings b) @ drop (exCursor b + 1) (exReadings b)\<rparr>),
      removeHeadReadings =
        (\<lambda>b n. if n > length (exReadings b) then b
                else \<lparr>exReadings = drop n (exReadings b), exCursor = exCursor b - n\<rparr>),
      builderClear = (\<lambda>b. \<lparr>exReadings = [], exCursor = 0\<rparr>),
      gridWidth = (\<lambda>b. length (exReadings b)),
      nodesCrossingOrEndingAt =
        (\<lambda>b i. if 0 < i \<and> i \<le> length (exReadings b) then [exAnchor t (exReadings b ! (i - 1)) 1]
                else []),
      overrideNodeScoreForSelectedCandidate = (\<lambda>b i v x. b),
      fixNodeSelectedCandidate = (\<lambda>b i v. (NodeAnchor, b)),
      walkerWalk = (\<lambda>b. exWalk t (exReadings b))\<rparr>"

definition exE :: "table \<Rightarrow> (jsstring, exBuilder, node, unit) env" where
  "exE t =
     \<lparr>R = exR,
      B = exB t,
      suggest = (\<lambda>u b w c now. None),
      observe = (\<lambda>u b w c v now. u),
      kSelectedCandidateScore = 99,
      cursorIsBetweenSyllables = (\<lambda>p n. js ''between''),
      syllablesRequired = (\<lambda>n. js ''more''),
      syllableMaximum = (\<lambda>n. js ''fewer''),
      phraseAlreadyExists = js ''exists'',
      pressEnterToAddThePhrase = js ''enter'',
      markedWithSyllablesAndStatus = (\<lambda>m r st. st),
      toArray = codePoints,
      absoluteOrderString = (\<lambda>s. s),
      parseFloat = (\<lambda>s. NaN)\<rparr>"

definition exLM :: "table \<Rightarrow> languageModel" where
  "exLM t =
     OtherLanguageModel
       (\<lambda>k. case map_of t k of Some v \<Rightarrow> [Unigram (KeyValuePair k v) (Num 0)] | None \<Rightarrow> [])
       (\<lambda>k. map_of t k \<noteq> None)"

text \<open>A new handler: the defaults of the fields, nothing typed yet.\<close>

definition exHandler :: "table \<Rightarrow> (jsstring, exBuilder, node, unit) keyHandler" where
  "exHandler t =
     \<lparr>selectPhraseAfterCursorAsCandidate = False,
      moveCursorAfterSelection = False,
      putLowercaseLettersToComposingBuffer = False,
      escKeyClearsEntireComposingBuffer = False,
      composingBufferSize = kComposingBufferSize,
      traditionalMode = False,
      languageModel = exLM t,
      readingBuffer = [],
      builder = \<lparr>exReadings = [], exCursor = 0\<rparr>,
      walkedNodes = [],
      userOverrideModel = ()\<rparr>"

text \<open>Keys as \<open>KeyFromKeyboardEvent\<close> makes them, \<open>new Key(event.key, keyName,
  event.shiftKey, event.ctrlKey)\<close>: a key whose code has no name of its own is an \<open>ASCII\<close>
  key (so is the Shift key, with \<open>event.key = "Shift"\<close>); the left arrow is the key
  \<open>LEFT\<close> with \<open>event.key = "ArrowLeft"\<close>. The cursor keys are the arrows to the left and
  right, Home and End; the delete keys are Backspace and Delete.\<close>

definition asciiKey :: "string \<Rightarrow> key" where
  "asciiKey c = \<lparr>ascii = js c, name = ASCII, shiftPressed = False, ctrlPressed = False,
                 isCursorKeys = False, isDeleteKeys = False\<rparr>"

definition namedKey :: "keyName \<Rightarrow> string \<Rightarrow> bool \<Rightarrow> key" where
  "namedKey n c shift =
     \<lparr>ascii = js c, name = n, shiftPressed = shift, ctrlPressed = False,
      isCursorKeys = (n = LEFT \<or> n = RIGHT \<or> n = HOME \<or> n = END),
      isDeleteKeys = (n = BACKSPACE \<or> n = DELETE)\<rparr>"

text \<open>Keys typed one after the other (all at time 0), a table for the examples, and the
  handler after \<open>x 3 x 3 !\<close> has been typed: three readings, walked as the phrase \<open>XX\<close>
  and the punctuation mark, the cursor at the end.\<close>

definition keys :: "string \<Rightarrow> (int \<times> key) list" where
  "keys cs = map (\<lambda>c. (0, asciiKey [c])) cs"

definition exTable :: table where
  "exTable = [(js ''x3'', js ''X''), (js ''x3-x3'', js ''XX''), (js ''_punctuation_!'', js ''!'')]"

definition exTyped :: "(jsstring, exBuilder, node, unit) keyHandler" where
  "exTyped = snd (snd (handleAll (exE exTable) (keys ''x3x3!'') Empty (exHandler exTable)))"

text \<open>A table whose syllable \<open>x3\<close> is a character outside the Basic Multilingual Plane
  (U+20000, the surrogate pair D840 DC00).\<close>

definition exAstralTable :: table where
  "exAstralTable = [(js ''x3'', [0xD840, 0xDC00])]"


text \<open>A handler with the smallest composing buffer, 4, after \<open>x 3 x 3 ! !\<close> (the grid is
  full, its first node is the phrase \<open>XX\<close> of two readings), and after \<open>! ! ! !\<close> (the grid
  is full, its first node is one reading).\<close>

definition exFullPhrase ::
  "event list \<times> inputState \<times> (jsstring, exBuilder, node, unit) keyHandler" where
  "exFullPhrase =
     handleAll (exE exTable) (keys ''x3x3!!'') Empty (set_composingBufferSize 4 (exHandler exTable))"

definition exFullSingle ::
  "event list \<times> inputState \<times> (jsstring, exBuilder, node, unit) keyHandler" where
  "exFullSingle =
     handleAll (exE exTable) (keys ''!!!!'') Empty (set_composingBufferSize 4 (exHandler exTable))"

text \<open>A \<open>WebLanguageModel\<close> for the examples: the dictionary has \<open>X\<close> and \<open>Y\<close> for the key
  \<open>x3\<close>, the user has the phrases \<open>U\<close> and \<open>Y\<close>; the output converter turns \<open>U\<close> into
  \<open>u\<close>, the converter of added phrases turns \<open>w\<close> into \<open>W\<close>; \<open>parseFloat\<close> knows two numbers.\<close>

definition exParseFloat :: "jsstring option \<Rightarrow> jsnum" where
  "exParseFloat s =
     (if s = Some (js ''-1'') then Num (- 1) else if s = Some (js ''-2'') then Num (- 2) else NaN)"

definition exWeb :: webLanguageModel where
  "exWeb =
     \<lparr>wlm_map = [js ''x3'' \<mapsto> js ''X -1 Y -2''],
      wlm_userPhrases = \<lparr>up_map = [js ''x3'' \<mapsto> [js ''U'', js ''Y'']], up_changes = []\<rparr>,
      wlm_converter = Some (\<lambda>s. if s = js ''U'' then Some (js ''u'') else None),
      addUserPhraseConverter = Some (\<lambda>s. if s = js ''w'' then Some (js ''W'') else None)\<rparr>"

section \<open>Notions used in the statements and proofs\<close>

text \<open>The text of the walked nodes: the values of their nodes, one after the other.\<close>

definition composedText :: "('r, 'b, 'n, 'u) env \<Rightarrow> 'b \<Rightarrow> 'n nodeAnchor list \<Rightarrow> jsstring" where
  "composedText E b anchors =
     concat (map (\<lambda>a. case anchorNode a of
                         None \<Rightarrow> []
                       | Some n \<Rightarrow> val (currentKeyValue (nodeOf (B E) b n))) anchors)"

text \<open>What lodash's \<open>_.toArray\<close> does to a string: it cuts it into pieces (code points,
  or longer clusters) that put together give the string again.\<close>

definition toArraySplits :: "('r, 'b, 'n, 'u) env \<Rightarrow> bool" where
  "toArraySplits E = (\<forall>s. concat (toArray E s) = s)"

text \<open>Two runs of the loop of \<open>getComposedString\<close> over the same nodes, the first for a
  builder cursor \<open>c1\<close> not after the second's: either the first has reached its cursor,
  or the two runs have done the same so far.\<close>

definition paired :: "nat \<Rightarrow> composeVars \<Rightarrow> composeVars \<Rightarrow> bool" where
  "paired c1 v1 v2 =
     (composedCursor v1 \<le> composedCursor v2
      \<and> (runningCursor v1 = c1
         \<or> (runningCursor v1 = runningCursor v2 \<and> composedCursor v1 = composedCursor v2
            \<and> runningCursor v1 < c1)))"

text \<open>The states that the handler builds. Every state handed to the state callback is
  one of them (lemma \<open>emitted_handle\<close> below).\<close>

inductive emitted :: "('r, 'b, 'n, 'u) env \<Rightarrow> inputState \<Rightarrow> bool" for E :: "('r, 'b, 'n, 'u) env" where
  emitted_Empty: "emitted E Empty"
| emitted_EmptyIgnoringPrevious: "emitted E EmptyIgnoringPrevious"
| emitted_Committing: "emitted E (Committing t)"
| emitted_Inputting: "emitted E (setEvictedText e (buildInputtingState E kh))"
| emitted_Marking: "buildMarkingState E kh m = Inr s \<Longrightarrow> emitted E s"
| emitted_ChoosingCandidate: "emitted E (buildChoosingCandidateState E kh st)"

text \<open>Every state among the calls made to the callbacks has the property \<open>P\<close>.\<close>

definition eventsAll :: "(inputState \<Rightarrow> bool) \<Rightarrow> event list \<Rightarrow> bool" where
  "eventsAll P evs =
     list_all (\<lambda>e. case e of StateCallback s \<Rightarrow> P s | ErrorCallback \<Rightarrow> True) evs"

text \<open>Modelled from the spec: what eviction needs of the builder, which is not among the
  sources. The grid is as wide as there are readings: inserting a reading makes it one
  wider, and \<open>removeHeadReadings(n)\<close>, for \<open>n\<close> within the width, takes the first \<open>n\<close>
  readings away.\<close>

definition headEviction :: "('b, 'n) builderOps \<Rightarrow> bool" where
  "headEviction BO =
     (\<forall>b. (\<forall>k. gridWidth BO (insertReadingAtCursor BO b k) = gridWidth BO b + 1)
          \<and> (\<forall>n. n \<le> gridWidth BO b \<longrightarrow>
                 gridWidth BO (removeHeadReadings BO b n) = gridWidth BO b - n
                 \<and> readings BO (removeHeadReadings BO b n) = drop n (readings BO b)))"

text \<open>The first call of a method is a call of the state callback, with an \<open>Inputting\<close>
  state whose evicted text is \<open>e\<close>.\<close>

definition emitsEvicted :: "event list \<Rightarrow> jsstring \<Rightarrow> bool" where
  "emitsEvicted evs e =
     (case evs of
        StateCallback s # rest \<Rightarrow> isInputting s \<and> evictedText s = e
      | _ \<Rightarrow> False)"



text \<open>A high surrogate directly followed by a low one occurs in the string.\<close>

fun hasSurrogatePair :: "jsstring \<Rightarrow> bool" where
  "hasSurrogatePair [] = False"
| "hasSurrogatePair [c] = False"
| "hasSurrogatePair (c # d # cs) =
     ((isHighSurrogate c \<and> isLowSurrogate d) \<or> hasSurrogatePair (d # cs))"

text \<open>\<open>s.includes(p)\<close>: the string \<open>p\<close> occurs somewhere in \<open>s\<close>.\<close>

fun hasSubstring :: "jsstring \<Rightarrow> jsstring \<Rightarrow> bool" where
  "hasSubstring [] p = (p = [])"
| "hasSubstring (c # cs) p = (take (length p) (c # cs) = p \<or> hasSubstring cs p)"

text \<open>The two replacements of \<open>maybeAbsoluteOrderKey\<close>.\<close>

definition protect :: "jsstring \<Rightarrow> jsstring" where
  "protect = replaceAll (js ''_-'') (js ''_______'')"

definition restore :: "jsstring \<Rightarrow> jsstring" where
  "restore = replaceAll (js ''_______'') (js ''_-'')"

text \<open>The segments of a key as the specification has them, \<open>_-\<close> protected from the
  split: the key is cut at every hyphen that does not directly follow an underscore (the
  hyphen is left out), and \<open>_-\<close> stays inside its segment.\<close>

fun guardedSegments :: "jsstring \<Rightarrow> jsstring list" where
  "guardedSegments [] = [[]]"
| "guardedSegments [c] = (if c = 0x2D then [[], []] else [[c]])"
| "guardedSegments (c # d # cs) =
     (if c = 0x5F \<and> d = 0x2D
      then (case guardedSegments cs of [] \<Rightarrow> [[c, d]] | x # xs \<Rightarrow> (c # d # x) # xs)
      else if c = 0x2D then [] # guardedSegments (d # cs)
      else (case guardedSegments (d # cs) of [] \<Rightarrow> [[c]] | x # xs \<Rightarrow> (c # x) # xs))"

text \<open>The transform as the specification has it: every segment that begins with an
  underscore is kept as it is, every other segment is turned into its absolute-order
  string (of the segment with its \<open>_-\<close> replaced, as the code passes it), and the results
  are put together.\<close>

definition segmentsKept :: "(jsstring \<Rightarrow> jsstring) \<Rightarrow> jsstring \<Rightarrow> jsstring" where
  "segmentsKept f k =
     concat (map (\<lambda>s. if startsWithUnderscore s then s else f (protect s)) (guardedSegments k))"

text \<open>A string in which the seven underscores that stand for \<open>_-\<close> cannot be taken for
  anything else: it has neither \<open>__-\<close> nor seven underscores in a row. Segments one after
  the other are tidy when each is such a string and none but the last ends with an
  underscore.\<close>

definition clean :: "jsstring \<Rightarrow> bool" where
  "clean s = (\<not> hasSubstring s (js ''__-'') \<and> \<not> hasSubstring s (js ''_______''))"

fun tidy :: "jsstring list \<Rightarrow> bool" where
  "tidy [] = True"
| "tidy [s] = clean s"
| "tidy (s # t # ts) = (clean s \<and> (s = [] \<or> last s \<noteq> 0x5F) \<and> tidy (t # ts))"

text \<open>What the specification says \<open>unigrams_for\<close> returns, in its words: the user-phrase
  entries, with score 0, before the entries of the static dictionary (the text of the
  dictionary read two by two as value and score), the converter applied to each value,
  and of the entries with the same value only the first kept.\<close>

fun entryPairs :: "jsstring list \<Rightarrow> (jsstring \<times> jsstring option) list" where
  "entryPairs [] = []"
| "entryPairs [v] = [(v, None)]"
| "entryPairs (v # s # rest) = (v, Some s) # entryPairs rest"

definition valueOf :: "unigram \<Rightarrow> jsstring" where
  "valueOf u = val (keyValue u)"

fun dedupByValue :: "unigram list \<Rightarrow> unigram list" where
  "dedupByValue [] = []"
| "dedupByValue (u # us) = u # filter (\<lambda>w. valueOf w \<noteq> valueOf u) (dedupByValue us)"

definition userEntries :: "webLanguageModel \<Rightarrow> jsstring \<Rightarrow> unigram list" where
  "userEntries lm k =
     map (\<lambda>item. Unigram (KeyValuePair k (convert (wlm_converter lm) item)) (Num 0))
       (case up_map (wlm_userPhrases lm) k of None \<Rightarrow> [] | Some list \<Rightarrow> list)"

definition staticEntries ::
  "(jsstring \<Rightarrow> jsstring) \<Rightarrow> (jsstring option \<Rightarrow> jsnum) \<Rightarrow> webLanguageModel \<Rightarrow> jsstring \<Rightarrow>
   unigram list" where
  "staticEntries absOrder pf lm k =
     (case wlm_map lm (maybeAbsoluteOrderKey absOrder k) of
        None \<Rightarrow> []
      | Some entries \<Rightarrow>
          map (\<lambda>e. Unigram (KeyValuePair k (convert (wlm_converter lm) (fst e))) (pf (snd e)))
            (entryPairs (split 0x20 entries)))"

text \<open>One turn of either loop of \<open>unigramsForKey\<close>, seen from the unigram it adds.\<close>

definition plainStep :: "unigram list \<times> jsstring list \<Rightarrow> unigram \<Rightarrow> unigram list \<times> jsstring list" where
  "plainStep acc u =
     ((if valueOf u \<notin> set (snd acc) then fst acc @ [u] else fst acc), snd acc @ [valueOf u])"

section \<open>Properties\<close>

subsection \<open>The composed string\<close>

lemma substring_0: "substring s 0 n = take n s"
  by (simp add: substring_def Let_def min_def)

lemma substring_to_end: "substring s n (length s) = drop n s"
  by (simp add: substring_def Let_def min_def max_def)

lemma join_empty_sep: "join xs [] = concat xs"
  by (induction xs "[] :: jsstring" rule: join.induct) simp_all

lemma composed_composeStep:
  "composed (composeStep E b c v a) =
   composed v @ (case anchorNode a of None \<Rightarrow> [] | Some n \<Rightarrow> val (currentKeyValue (nodeOf (B E) b n)))"
  by (simp add: composeStep_def Let_def split: option.splits)

lemma composed_foldl:
  "composed (foldl (composeStep E b c) v as) = composed v @ composedText E b as"
  by (induction as arbitrary: v) (simp_all add: composedText_def composed_composeStep)

lemma composed_composeLoop: "composed (composeLoop E b c as) = composedText E b as"
  by (simp add: composeLoop_def composed_foldl)

lemma head_tail_composed:
  "csHead (getComposedString E kh c) @ csTail (getComposedString E kh c)
   = composedText E (builder kh) (walkedNodes kh)"
  by (simp add: getComposedString_def Let_def substring_0 substring_to_end composed_composeLoop)

lemma csHead_take:
  "csHead (getComposedString E kh c)
   = take (composedCursor (composeLoop E (builder kh) c (walkedNodes kh)))
       (composedText E (builder kh) (walkedNodes kh))"
  by (simp add: getComposedString_def Let_def substring_0 composed_composeLoop)

lemma csTail_drop:
  "csTail (getComposedString E kh c)
   = drop (composedCursor (composeLoop E (builder kh) c (walkedNodes kh)))
       (composedText E (builder kh) (walkedNodes kh))"
  by (simp add: getComposedString_def Let_def substring_to_end composed_composeLoop)

lemma runningCursor_step:
  "runningCursor v \<le> c \<Longrightarrow> runningCursor (composeStep E b c v a) \<le> c"
  by (simp add: composeStep_def Let_def split: option.splits)

lemma runningCursor_le_foldl:
  "runningCursor v \<le> c \<Longrightarrow> runningCursor (foldl (composeStep E b c) v as) \<le> c"
  by (induction as arbitrary: v) (simp_all add: runningCursor_step)

lemma buildInputtingState_cursor_le:
  "cursorIndex (buildInputtingState E kh) \<le> length (composingBuffer (buildInputtingState E kh))"
  by (simp add: buildInputtingState_def Let_def)

lemma length_concat_take_le:
  "length (concat (take n xs)) \<le> length (concat xs)"
proof -
  have "concat xs = concat (take n xs) @ concat (drop n xs)"
    by (metis append_take_drop_id concat_append)
  then show ?thesis by (metis le_add1 length_append)
qed

lemma length_concat_take_mono:
  "m \<le> n \<Longrightarrow> length (concat (take m xs)) \<le> length (concat (take n xs))"
proof -
  assume "m \<le> n"
  then have "take m xs = take m (take n xs)" by (simp add: min_def)
  then show ?thesis using length_concat_take_le [of m "take n xs"] by simp
qed

lemma composedCursor_step_mono:
  "composedCursor v \<le> composedCursor (composeStep E b c v a)"
  by (simp add: composeStep_def Let_def split: option.splits)

lemma frozen_step:
  "runningCursor v = c \<Longrightarrow> composedCursor (composeStep E b c v a) = composedCursor v
     \<and> runningCursor (composeStep E b c v a) = c"
  by (simp add: composeStep_def Let_def split: option.splits)

lemma paired_step:
  assumes ts: "toArraySplits E" and le: "c1 \<le> c2" and p: "paired c1 v1 v2"
  shows "paired c1 (composeStep E b c1 v1 a) (composeStep E b c2 v2 a)"
proof (cases "runningCursor v1 = c1")
  case True
  have "composedCursor (composeStep E b c1 v1 a) = composedCursor v1"
    and "runningCursor (composeStep E b c1 v1 a) = c1"
    using frozen_step [OF True, of E b a] by simp_all
  moreover have "composedCursor v1 \<le> composedCursor v2" using p by (simp add: paired_def)
  moreover have "composedCursor v2 \<le> composedCursor (composeStep E b c2 v2 a)"
    by (rule composedCursor_step_mono)
  ultimately show ?thesis by (simp add: paired_def)
next
  case False
  then have sync: "runningCursor v1 = runningCursor v2" "composedCursor v1 = composedCursor v2"
    "runningCursor v1 < c1"
    using p by (auto simp: paired_def)
  show ?thesis
  proof (cases "anchorNode a")
    case None
    then show ?thesis using p by (simp add: composeStep_def)
  next
    case (Some n)
    define vl where "vl = val (currentKeyValue (nodeOf (B E) b n))"
    have cat: "concat (toArray E vl) = vl" using ts by (simp add: toArraySplits_def)
    have full: "\<And>k. length (concat (take k (toArray E vl))) \<le> length vl"
      using length_concat_take_le [of _ "toArray E vl"] cat by simp
    have mono: "\<And>j k. j \<le> k \<Longrightarrow> length (concat (take j (toArray E vl)))
                  \<le> length (concat (take k (toArray E vl)))"
      by (rule length_concat_take_mono)
    have m: "min (c1 - runningCursor v2) (length (toArray E vl))
             \<le> min (c2 - runningCursor v2) (length (toArray E vl))"
      using le by (intro min.mono diff_le_mono) simp_all
    show ?thesis
      using sync le Some full mono [OF m]
      by (auto simp: paired_def composeStep_def Let_def join_empty_sep vl_def)
  qed
qed

lemma paired_foldl:
  assumes ts: "toArraySplits E" and le: "c1 \<le> c2"
  shows "paired c1 v1 v2 \<Longrightarrow>
         paired c1 (foldl (composeStep E b c1) v1 as) (foldl (composeStep E b c2) v2 as)"
  by (induction as arbitrary: v1 v2) (simp_all add: paired_step [OF ts le])

lemma composedCursor_mono:
  assumes ts: "toArraySplits E" and le: "c1 \<le> c2"
  shows "composedCursor (composeLoop E b c1 as) \<le> composedCursor (composeLoop E b c2 as)"
proof -
  have "paired c1 \<lparr>runningCursor = 0, composed = [], composedCursor = 0, cvTooltip = []\<rparr>
                  \<lparr>runningCursor = 0, composed = [], composedCursor = 0, cvTooltip = []\<rparr>"
    by (auto simp: paired_def)
  from paired_foldl [OF ts le this] show ?thesis
    by (simp add: composeLoop_def paired_def)
qed

lemma runningCursor_le: "runningCursor (composeLoop E b c as) \<le> c"
  by (simp add: composeLoop_def runningCursor_le_foldl)

lemma substringFrom_drop: "substringFrom s n = drop n s"
  by (simp add: substringFrom_def substring_to_end)

lemma take_drop_take:
  "a \<le> b \<Longrightarrow> take a t @ drop (length (take a t)) (take b t) @ drop b t = t"
proof -
  assume ab: "a \<le> b"
  have "take a t = take a (take b t)" using ab by (simp add: min_def)
  then have "take a t @ drop (length (take a t)) (take b t) = take b t"
    by (metis append_take_drop_id length_take take_all_iff linorder_le_cases min_def)
  then have "(take a t @ drop (length (take a t)) (take b t)) @ drop b t = take b t @ drop b t"
    by (rule arg_cong)
  then show ?thesis by (simp del: length_take)
qed

lemma buildMarkingState_fields:
  fixes E :: "('r, 'b, 'n, 'u) env" and kh :: "('r, 'b, 'n, 'u) keyHandler"
  defines "cur \<equiv> builderCursorIndex (B E) (builder kh)"
  assumes b: "buildMarkingState E kh m = Inr s"
  shows "isMarking s"
    and "composingBuffer s
           = csHead (getComposedString E kh cur) @ csTail (getComposedString E kh cur)"
    and "head s = csHead (getComposedString E kh (min m cur))"
    and "markedText s
           = substringFrom (csHead (getComposedString E kh (max m cur)))
               (length (csHead (getComposedString E kh (min m cur))))"
    and "tail s = csTail (getComposedString E kh (max m cur))"
    and "reading s = join (slice (readings (B E) (builder kh)) (min m cur) (max m cur)) (js ''-'')"
proof -
  have mm: "(if m > cur then cur else m) = min m cur" "(if m > cur then m else cur) = max m cur"
    "(if m > cur then getComposedString E kh cur else getComposedString E kh m)
       = getComposedString E kh (min m cur)"
    "(if m > cur then getComposedString E kh m else getComposedString E kh cur)
       = getComposedString E kh (max m cur)"
    by (simp_all add: min_def max_def)
  show "isMarking s"
    and "composingBuffer s
           = csHead (getComposedString E kh cur) @ csTail (getComposedString E kh cur)"
    and "head s = csHead (getComposedString E kh (min m cur))"
    and "markedText s
           = substringFrom (csHead (getComposedString E kh (max m cur)))
               (length (csHead (getComposedString E kh (min m cur))))"
    and "tail s = csTail (getComposedString E kh (max m cur))"
    and "reading s = join (slice (readings (B E) (builder kh)) (min m cur) (max m cur)) (js ''-'')"
    using b
    by (auto simp add: buildMarkingState_def Let_def cur_def [symmetric] mm
        split: sum.splits prod.splits if_splits)
qed

subsection \<open>The example environment\<close>

lemma codePoints_concat: "concat (codePoints s) = s"
  by (induction s rule: codePoints.induct) simp_all

lemma toArraySplits_exE: "toArraySplits (exE t)"
  by (simp add: toArraySplits_def exE_def codePoints_concat)

lemma builder_exTyped:
  "builder exTyped = \<lparr>exReadings = [js ''x3'', js ''x3'', js ''_punctuation_!''], exCursor = 3\<rparr>"
  by code_simp

subsection \<open>The states handed to the state callback\<close>

lemma emitted_plain: "emitted E (buildInputtingState E kh)"
proof -
  have "setEvictedText [] (buildInputtingState E kh) = buildInputtingState E kh"
    by (simp add: buildInputtingState_def Let_def)
  then show ?thesis
    using emitted_Inputting [of E "[]" kh] by simp
qed

lemmas emitted_simps [simp] =
  emitted_Empty emitted_EmptyIgnoringPrevious emitted_Committing emitted_Inputting
  emitted_ChoosingCandidate emitted_plain

lemma eventsAll_simps [simp]:
  "eventsAll P []"
  "eventsAll P (StateCallback s # es) = (P s \<and> eventsAll P es)"
  "eventsAll P (ErrorCallback # es) = eventsAll P es"
  "eventsAll P (xs @ ys) = (eventsAll P xs \<and> eventsAll P ys)"
  by (simp_all add: eventsAll_def)

lemma eventsAll_mem:
  "eventsAll P evs \<Longrightarrow> StateCallback s \<in> set evs \<Longrightarrow> P s"
  by (auto simp: eventsAll_def list_all_iff)

lemma emitted_emptyOrInputting [simp]: "eventsAll (emitted E) [emptyOrInputting E kh]"
  by (simp add: emptyOrInputting_def)

lemma emitted_handlePunctuation: "eventsAll (emitted E) (fst (snd (handlePunctuation E k kh)))"
  by (simp add: handlePunctuation_def Let_def)

lemma emitted_handleTabKey: "eventsAll (emitted E) (fst (snd (handleTabKey E now k st kh)))"
  by (simp add: handleTabKey_def Let_def)

lemma emitted_marking_case:
  "eventsAll (emitted E) errs \<Longrightarrow>
   eventsAll (emitted E)
     (fst (snd (case buildMarkingState E kh m of
                  Inl e \<Rightarrow> (Inl e, errs, kh')
                | Inr marking \<Rightarrow> (Inr True, errs @ [StateCallback marking], kh'))))"
  by (auto split: sum.splits intro: emitted_Marking)

lemma emitted_handleCursorKeys: "eventsAll (emitted E) (fst (snd (handleCursorKeys E k st kh)))"
  by (simp add: handleCursorKeys_def Let_def emitted_marking_case)

lemma emitted_handleDeleteKeys: "eventsAll (emitted E) (fst (snd (handleDeleteKeys E k st kh)))"
  by (simp add: handleDeleteKeys_def Let_def)

lemma emitted_composeReading: "eventsAll (emitted E) (fst (snd (composeReading E now kh)))"
  by (simp add: composeReading_def Let_def)

lemma emitted_handleShiftSpace: "eventsAll (emitted E) (fst (snd (handleShiftSpace E kh)))"
  by (simp add: handleShiftSpace_def Let_def)

lemma emitted_handleEsc: "eventsAll (emitted E) (fst (snd (handleEsc E st kh)))"
  by (simp add: handleEsc_def Let_def)

lemma emitted_handleReturn: "eventsAll (emitted E) (fst (snd (handleReturn E st kh)))"
  by (auto simp add: handleReturn_def Let_def split: languageModel.splits sum.splits
      intro: emitted_Marking)

lemma emitted_handleBacktick: "eventsAll (emitted E) (fst (snd (handleBacktick E kh)))"
  by (simp add: handleBacktick_def Let_def)

lemma emitted_handleNothing: "eventsAll (emitted E) (fst (snd (handleNothing E st kh)))"
  by (simp add: handleNothing_def)

lemma emitted_handleAscii: "eventsAll (emitted E) (fst (snd (handleAscii E k st kh)))"
  by (simp add: handleAscii_def Let_def emitted_handlePunctuation emitted_handleNothing)

lemma emitted_handleAfterReading:
  "eventsAll (emitted E) (fst (snd (handleAfterReading E now k st c kh)))"
  by (simp add: handleAfterReading_def returned_def Let_def emitted_composeReading
      emitted_handleShiftSpace
      emitted_handleEsc emitted_handleTabKey emitted_handleCursorKeys emitted_handleDeleteKeys
      emitted_handleReturn emitted_handleBacktick emitted_handleAscii)

lemma emitted_handle: "eventsAll (emitted E) (fst (snd (handle E now k st kh)))"
  by (simp add: handle_def Let_def emitted_handleAfterReading)

lemma emitted_handleAll: "eventsAll (emitted E) (fst (handleAll E ks st kh))"
  by (induction E ks st kh rule: handleAll.induct) (simp_all add: Let_def emitted_handle)

lemma emitted_candidateSelected: "eventsAll (emitted E) (fst (candidateSelected E now c kh))"
  by (simp add: candidateSelected_def Let_def)

lemma emitted_candidatePanelCancelled: "eventsAll (emitted E) (fst (candidatePanelCancelled E kh))"
  by (simp add: candidatePanelCancelled_def)

lemma emitted_inputting_cursor:
  "emitted E s \<Longrightarrow> isInputting s \<Longrightarrow> cursorIndex s \<le> length (composingBuffer s)"
proof (induction rule: emitted.induct)
  case (emitted_Marking kh m s)
  then show ?case using buildMarkingState_fields(1) [of E kh m s] by (cases s) simp_all
qed (simp_all add: buildInputtingState_def buildChoosingCandidateState_def Let_def)

subsection \<open>The candidate cursor\<close>

text \<open>C5: with \<open>c\<close> the grid cursor and \<open>W\<close> the number of readings, the cursor used for
  the candidates is \<open>c + 1\<close> when "select phrase after cursor" is on and \<open>c < W\<close>; it is
  \<open>c + 1\<close> when the setting is off, \<open>c = 0\<close> and \<open>W > 0\<close>; it is \<open>c\<close> in every other case.\<close>

theorem C5_actualCandidateCursorIndex:
  fixes E :: "('r, 'b, 'n, 'u) env" and kh :: "('r, 'b, 'n, 'u) keyHandler"
  defines "c \<equiv> builderCursorIndex (B E) (builder kh)"
      and "W \<equiv> builderLength (B E) (builder kh)"
  shows "(selectPhraseAfterCursorAsCandidate kh \<and> c < W
            \<longrightarrow> actualCandidateCursorIndex E kh = c + 1)
       \<and> (\<not> selectPhraseAfterCursorAsCandidate kh \<and> c = 0 \<and> W > 0
            \<longrightarrow> actualCandidateCursorIndex E kh = c + 1)
       \<and> (\<not> (selectPhraseAfterCursorAsCandidate kh \<and> c < W)
          \<and> \<not> (\<not> selectPhraseAfterCursorAsCandidate kh \<and> c = 0 \<and> W > 0)
            \<longrightarrow> actualCandidateCursorIndex E kh = c)"
  by (simp add: actualCandidateCursorIndex_def c_def W_def Let_def)

text \<open>The three cases on the example handler (three readings): the cursor at the end;
  the cursor at 0 with the setting off; the cursor at 1 with the setting on.\<close>

theorem C5_witness:
  "actualCandidateCursorIndex (exE exTable) exTyped = 3
   \<and> actualCandidateCursorIndex (exE exTable)
        (exTyped\<lparr>builder := \<lparr>exReadings = exReadings (builder exTyped), exCursor = 0\<rparr>\<rparr>) = 1
   \<and> actualCandidateCursorIndex (exE exTable)
        (exTyped\<lparr>builder := \<lparr>exReadings = exReadings (builder exTyped), exCursor = 1\<rparr>,
                  selectPhraseAfterCursorAsCandidate := True\<rparr>) = 2"
proof -
  have sel: "\<not> selectPhraseAfterCursorAsCandidate exTyped"
    by code_simp
  show ?thesis
    using sel
      C5_actualCandidateCursorIndex [where kh = exTyped and E = "exE exTable"]
      C5_actualCandidateCursorIndex
        [where kh = "exTyped\<lparr>builder := \<lparr>exReadings = exReadings (builder exTyped), exCursor = 0\<rparr>\<rparr>"
           and E = "exE exTable"]
      C5_actualCandidateCursorIndex
        [where kh = "exTyped\<lparr>builder := \<lparr>exReadings = exReadings (builder exTyped), exCursor = 1\<rparr>,
                       selectPhraseAfterCursorAsCandidate := True\<rparr>" and E = "exE exTable"]
    by (simp add: builder_exTyped exE_def exB_def)
qed

subsection \<open>Marking states\<close>

lemma buildMarkingState_buffer:
  fixes E :: "('r, 'b, 'n, 'u) env" and kh :: "('r, 'b, 'n, 'u) keyHandler"
  defines "cur \<equiv> builderCursorIndex (B E) (builder kh)"
  assumes ts: "toArraySplits E" and b: "buildMarkingState E kh m = Inr s"
  shows "composingBuffer s = head s @ markedText s @ tail s
       \<and> head s = csHead (getComposedString E kh (min m cur))
       \<and> length (head s) \<le> length (csHead (getComposedString E kh m))
       \<and> length (head s) \<le> length (csHead (getComposedString E kh cur))"
proof -
  define T where "T = composedText E (builder kh) (walkedNodes kh)"
  define cc where "cc = (\<lambda>c. composedCursor (composeLoop E (builder kh) c (walkedNodes kh)))"
  have hd: "\<And>c. csHead (getComposedString E kh c) = take (cc c) T"
    by (simp add: csHead_take T_def cc_def)
  have tl: "\<And>c. csTail (getComposedString E kh c) = drop (cc c) T"
    by (simp add: csTail_drop T_def cc_def)
  have mono: "\<And>c1 c2. c1 \<le> c2 \<Longrightarrow> cc c1 \<le> cc c2"
    unfolding cc_def by (rule composedCursor_mono [OF ts])
  note f = buildMarkingState_fields [OF b, folded cur_def]
  have le: "cc (min m cur) \<le> cc (max m cur)" using mono by simp
  have l1: "cc (min m cur) \<le> cc m" and l2: "cc (min m cur) \<le> cc cur" using mono by simp_all
  have buf: "composingBuffer s = T" by (simp add: f(2) hd tl)
  have parts: "head s @ markedText s @ tail s = T"
    using take_drop_take [OF le, of T] by (simp add: f(3,4,5) hd tl substringFrom_drop)
  have len: "length (head s) \<le> length (csHead (getComposedString E kh m))"
    "length (head s) \<le> length (csHead (getComposedString E kh cur))"
    using l1 l2 by (simp_all add: f(3) hd min.coboundedI1)
  show ?thesis using buf parts len f(3) by simp
qed

lemma emitted_marking_buffer:
  assumes "toArraySplits E"
  shows "emitted E s \<Longrightarrow> isMarking s
         \<Longrightarrow> composingBuffer s = head s @ markedText s @ tail s"
proof (induction rule: emitted.induct)
  case (emitted_Marking kh m s)
  show ?case using buildMarkingState_buffer [OF assms emitted_Marking(1)] by blast
qed (simp_all add: buildInputtingState_def buildChoosingCandidateState_def Let_def)

text \<open>C10: provided \<open>_.toArray\<close> cuts a string into pieces that give the string again,
  every \<open>Marking\<close> state handed to the state callback in a sequence of calls of \<open>handle\<close>
  has composingBuffer = head + markedText + tail; and the head of every state that
  \<open>buildMarkingState\<close> builds is the head of the composed string at the smaller of the
  mark start and the cursor, no longer than either of the two heads: the shorter prefix,
  whichever side of the cursor the mark start lies on.\<close>

theorem C10_marking_buffer:
  fixes E :: "('r, 'b, 'n, 'u) env" and kh kh' :: "('r, 'b, 'n, 'u) keyHandler"
  defines "cur \<equiv> builderCursorIndex (B E) (builder kh)"
  assumes ts: "toArraySplits E"
  shows "(\<forall>s. StateCallback s \<in> set (fst (handleAll E ks st kh')) \<and> isMarking s
              \<longrightarrow> composingBuffer s = head s @ markedText s @ tail s)
       \<and> (\<forall>s. buildMarkingState E kh m = Inr s
              \<longrightarrow> composingBuffer s = head s @ markedText s @ tail s
                  \<and> head s = csHead (getComposedString E kh (min m cur))
                  \<and> length (head s) \<le> length (csHead (getComposedString E kh m))
                  \<and> length (head s) \<le> length (csHead (getComposedString E kh cur)))"
proof -
  have "\<forall>s. StateCallback s \<in> set (fst (handleAll E ks st kh')) \<and> isMarking s
              \<longrightarrow> composingBuffer s = head s @ markedText s @ tail s"
    using emitted_marking_buffer [OF ts] eventsAll_mem [OF emitted_handleAll] by blast
  then show ?thesis
    using buildMarkingState_buffer [OF ts, of kh m] unfolding cur_def by blast
qed

text \<open>On the example: after \<open>x 3 x 3 !\<close>, Shift and the left arrow twice give a
  \<open>Marking\<close> state with the cursor (1) before the mark start (3); \<open>buildMarkingState\<close> on
  the handler with the mark start (1) before the cursor (3) gives the same three parts.\<close>

theorem C10_witness:
  "toArraySplits (exE exTable)
   \<and> StateCallback (Marking (js ''XX!'') 1 (js ''enter'') 3 (js ''X'') (js ''X!'') []
                     (js ''x3-_punctuation_!'') True)
       \<in> set (fst (handleAll (exE exTable)
                     (keys ''x3x3!'' @ [(0, namedKey LEFT ''ArrowLeft'' True), (0, namedKey LEFT ''ArrowLeft'' True)])
                     Empty (exHandler exTable)))
   \<and> buildMarkingState (exE exTable) exTyped 1
       = Inr (Marking (js ''XX!'') 3 (js ''enter'') 1 (js ''X'') (js ''X!'') []
                (js ''x3-_punctuation_!'') True)
   \<and> js ''XX!'' = js ''X'' @ js ''X!'' @ []"
proof -
  have mem: "StateCallback (Marking (js ''XX!'') 1 (js ''enter'') 3 (js ''X'') (js ''X!'') []
                     (js ''x3-_punctuation_!'') True)
       \<in> set (fst (handleAll (exE exTable)
                     (keys ''x3x3!'' @ [(0, namedKey LEFT ''ArrowLeft'' True), (0, namedKey LEFT ''ArrowLeft'' True)])
                     Empty (exHandler exTable)))"
    by code_simp
  have m1: "buildMarkingState (exE exTable) exTyped 1
              = Inr (Marking (js ''XX!'') 3 (js ''enter'') 1 (js ''X'') (js ''X!'') []
                       (js ''x3-_punctuation_!'') True)"
    by code_simp
  note inst = C10_marking_buffer [OF toArraySplits_exE, where kh = exTyped and m = 1
      and kh' = "exHandler exTable" and st = Empty
      and ks = "keys ''x3x3!'' @ [(0, namedKey LEFT ''ArrowLeft'' True), (0, namedKey LEFT ''ArrowLeft'' True)]"]
  have "composingBuffer (Marking (js ''XX!'') 1 (js ''enter'') 3 (js ''X'') (js ''X!'') []
                     (js ''x3-_punctuation_!'') True)
        = head (Marking (js ''XX!'') 1 (js ''enter'') 3 (js ''X'') (js ''X!'') []
                     (js ''x3-_punctuation_!'') True)
          @ markedText (Marking (js ''XX!'') 1 (js ''enter'') 3 (js ''X'') (js ''X!'') []
                     (js ''x3-_punctuation_!'') True)
          @ tail (Marking (js ''XX!'') 1 (js ''enter'') 3 (js ''X'') (js ''X!'') []
                     (js ''x3-_punctuation_!'') True)"
    using inst mem by (meson isMarking.simps(1))
  then have "js ''XX!'' = js ''X'' @ js ''X!'' @ []"
    by simp
  then show ?thesis
    using mem m1 toArraySplits_exE by simp
qed

lemma buildMarkingState_acceptable:
  fixes E :: "('r, 'b, 'n, 'u) env" and kh :: "('r, 'b, 'n, 'u) keyHandler" and m :: nat
  defines "cur \<equiv> builderCursorIndex (B E) (builder kh)"
  defines "rds \<equiv> slice (readings (B E) (builder kh)) (min m cur) (max m cur)"
  assumes b: "buildMarkingState E kh m = Inr s"
  shows "acceptable s
           \<longleftrightarrow> 2 \<le> length rds \<and> length rds \<le> 6
               \<and> (\<forall>us. lmUnigramsForKey E (languageModel kh) (join rds (js ''-'')) = Inr us
                       \<longrightarrow> \<not> (\<exists>u \<in> set us. val (keyValue u) = markedText s))"
proof -
  have mm: "(if m > cur then cur else m) = min m cur" "(if m > cur then m else cur) = max m cur"
    by (simp_all add: min_def max_def)
  show ?thesis
    using b
    by (auto simp add: buildMarkingState_def Let_def cur_def [symmetric] rds_def mm
        MarkedPhraseExists_def list_ex_iff kMinValidMarkingReadingCount_def
        kMaxValidMarkingReadingCount_def split: sum.splits if_splits)
qed

lemma buildMarkingState_raises:
  fixes E :: "('r, 'b, 'n, 'u) env" and kh :: "('r, 'b, 'n, 'u) keyHandler" and m :: nat
  defines "cur \<equiv> builderCursorIndex (B E) (builder kh)"
  defines "rds \<equiv> slice (readings (B E) (builder kh)) (min m cur) (max m cur)"
  shows "buildMarkingState E kh m = Inl e
           \<longleftrightarrow> 2 \<le> length rds \<and> length rds \<le> 6
               \<and> lmUnigramsForKey E (languageModel kh) (join rds (js ''-'')) = Inl e"
proof -
  have mm: "(if m > cur then cur else m) = min m cur" "(if m > cur then m else cur) = max m cur"
    by (simp_all add: min_def max_def)
  show ?thesis
    by (auto simp add: buildMarkingState_def Let_def cur_def [symmetric] rds_def mm
        MarkedPhraseExists_def kMinValidMarkingReadingCount_def
        kMaxValidMarkingReadingCount_def split: sum.splits if_splits)
qed

text \<open>C4: a \<open>Marking\<close> state built by \<open>buildMarkingState\<close> is acceptable if and only if
  the marked range has at least 2 and at most 6 readings and no unigram that the language
  model gives for the readings joined by hyphens has the marked text as its value. The
  joined readings are the state's reading; the range holds the readings between the mark
  start and the cursor, as many as the two are apart when both lie within the readings.
  \<open>buildMarkingState\<close> builds a state unless the range has 2 to 6 readings and the
  language model raises an error, which it then raises.\<close>

theorem C4_marking_acceptable:
  fixes E :: "('r, 'b, 'n, 'u) env" and kh :: "('r, 'b, 'n, 'u) keyHandler" and m :: nat
  defines "cur \<equiv> builderCursorIndex (B E) (builder kh)"
  defines "rds \<equiv> slice (readings (B E) (builder kh)) (min m cur) (max m cur)"
  shows "(\<forall>s. buildMarkingState E kh m = Inr s \<longrightarrow>
            (acceptable s
               \<longleftrightarrow> 2 \<le> length rds \<and> length rds \<le> 6
                   \<and> (\<forall>us. lmUnigramsForKey E (languageModel kh) (join rds (js ''-'')) = Inr us
                           \<longrightarrow> \<not> (\<exists>u \<in> set us. val (keyValue u) = markedText s)))
            \<and> reading s = join rds (js ''-''))
       \<and> (\<forall>e. buildMarkingState E kh m = Inl e
                \<longleftrightarrow> 2 \<le> length rds \<and> length rds \<le> 6
                    \<and> lmUnigramsForKey E (languageModel kh) (join rds (js ''-'')) = Inl e)
       \<and> (m \<le> length (readings (B E) (builder kh)) \<and> cur \<le> length (readings (B E) (builder kh))
            \<longrightarrow> length rds = max m cur - min m cur)"
proof -
  have a: "\<forall>s. buildMarkingState E kh m = Inr s \<longrightarrow>
            (acceptable s
               \<longleftrightarrow> 2 \<le> length rds \<and> length rds \<le> 6
                   \<and> (\<forall>us. lmUnigramsForKey E (languageModel kh) (join rds (js ''-'')) = Inr us
                           \<longrightarrow> \<not> (\<exists>u \<in> set us. val (keyValue u) = markedText s)))
            \<and> reading s = join rds (js ''-'')"
    using buildMarkingState_acceptable [of E kh m] buildMarkingState_fields(6) [of E kh m]
    unfolding cur_def rds_def by blast
  have r: "\<forall>e. buildMarkingState E kh m = Inl e
                \<longleftrightarrow> 2 \<le> length rds \<and> length rds \<le> 6
                    \<and> lmUnigramsForKey E (languageModel kh) (join rds (js ''-'')) = Inl e"
    using buildMarkingState_raises [of E kh m] unfolding cur_def rds_def by blast
  have l: "m \<le> length (readings (B E) (builder kh)) \<and> cur \<le> length (readings (B E) (builder kh))
            \<longrightarrow> length rds = max m cur - min m cur"
    by (auto simp add: rds_def slice_def)
  show ?thesis using a r l by blast
qed

text \<open>On the example handler: the range from 1 to 3 (two readings, no such phrase) is
  acceptable; the range from 0 to 2 is the phrase \<open>XX\<close> of the table and is not.\<close>

theorem C4_witness:
  "1 \<le> length (readings (B (exE exTable)) (builder exTyped))
   \<and> builderCursorIndex (B (exE exTable)) (builder exTyped)
       \<le> length (readings (B (exE exTable)) (builder exTyped))
   \<and> buildMarkingState (exE exTable) exTyped 1
       = Inr (Marking (js ''XX!'') 3 (js ''enter'') 1 (js ''X'') (js ''X!'') []
                (js ''x3-_punctuation_!'') True)
   \<and> length (slice (readings (B (exE exTable)) (builder exTyped)) 1 3) = 2
   \<and> lmUnigramsForKey (exE exTable) (languageModel exTyped) (js ''x3-_punctuation_!'') = Inr []
   \<and> buildMarkingState (exE exTable)
        (exTyped\<lparr>builder := \<lparr>exReadings = exReadings (builder exTyped), exCursor = 2\<rparr>\<rparr>) 0
       = Inr (Marking (js ''XX!'') 2 (js ''exists'') 0 [] (js ''XX'') (js ''!'')
                (js ''x3-x3'') False)"
proof -
  have a1: "buildMarkingState (exE exTable) exTyped 1
       = Inr (Marking (js ''XX!'') 3 (js ''enter'') 1 (js ''X'') (js ''X!'') []
                (js ''x3-_punctuation_!'') True)"
    by code_simp
  have a2: "buildMarkingState (exE exTable)
        (exTyped\<lparr>builder := \<lparr>exReadings = exReadings (builder exTyped), exCursor = 2\<rparr>\<rparr>) 0
       = Inr (Marking (js ''XX!'') 2 (js ''exists'') 0 [] (js ''XX'') (js ''!'')
                (js ''x3-x3'') False)"
    by code_simp
  have u: "lmUnigramsForKey (exE exTable) (languageModel exTyped) (js ''x3-_punctuation_!'') = Inr []"
    by code_simp
  have "length (slice (readings (B (exE exTable)) (builder exTyped))
                  (min 1 (builderCursorIndex (B (exE exTable)) (builder exTyped)))
                  (max 1 (builderCursorIndex (B (exE exTable)) (builder exTyped)))) = 2"
    using a1 C4_marking_acceptable [where m = 1 and E = "exE exTable" and kh = exTyped]
    by (simp add: builder_exTyped exE_def exB_def)
  then show ?thesis
    using a1 a2 u by (simp add: builder_exTyped exE_def exB_def)
qed

subsection \<open>The cursor of an Inputting state\<close>

lemma codePointLength_bmp:
  "\<not> hasSurrogatePair s \<Longrightarrow> codePointLength s = length s"
  unfolding codePointLength_def
  by (induction s rule: codePoints.induct) auto

text \<open>C8, as the code has it: in every sequence of calls of \<open>handle\<close>, from any state
  and any handler, every \<open>Inputting\<close> state handed to the state callback has a cursor
  index that is at least 0 and at most the length of its composing buffer, counted in
  UTF-16 code units as JavaScript's \<open>length\<close> does; so at most the number of code points
  of the buffer when the buffer has no surrogate pair in it.\<close>

theorem C8_cursor_within_buffer:
  "StateCallback (Inputting buf i tip ev) \<in> set (fst (handleAll E ks st kh))
   \<Longrightarrow> 0 \<le> i \<and> i \<le> length buf
       \<and> (\<not> hasSurrogatePair buf \<longrightarrow> i \<le> codePointLength buf)"
proof -
  assume mem: "StateCallback (Inputting buf i tip ev) \<in> set (fst (handleAll E ks st kh))"
  have le: "i \<le> length buf"
    using emitted_inputting_cursor [OF eventsAll_mem [OF emitted_handleAll mem]]
    by simp
  then show ?thesis
    by (simp add: codePointLength_bmp)
qed

theorem C8_witness:
  "StateCallback (Inputting (js ''XX'') 2 [] [])
     \<in> set (fst (handleAll (exE exTable) (keys ''x3x3'') Empty (exHandler exTable)))
   \<and> (2::nat) \<le> length (js ''XX'')
   \<and> \<not> hasSurrogatePair (js ''XX'')
   \<and> 2 \<le> codePointLength (js ''XX'')"
proof -
  have mem: "StateCallback (Inputting (js ''XX'') 2 [] [])
     \<in> set (fst (handleAll (exE exTable) (keys ''x3x3'') Empty (exHandler exTable)))"
    by code_simp
  have bmp: "\<not> hasSurrogatePair (js ''XX'')"
    by code_simp
  with C8_cursor_within_buffer [OF mem] mem show ?thesis by simp
qed

text \<open>The claim counts the buffer in code points. A character outside the Basic
  Multilingual Plane is one code point and two code units: after the syllable \<open>x 3\<close> is
  typed with the table that has such a character, the cursor index is 2 and the buffer
  has 1 code point.\<close>

theorem C8_counterexample:
  "fst (handleAll (exE exAstralTable) (keys ''x3'') Empty (exHandler exAstralTable))
     = [StateCallback (Inputting (js ''x'') 1 [] []),
        StateCallback (Inputting [0xD840, 0xDC00] 2 [] [])]
   \<and> codePointLength [0xD840, 0xDC00] = 1
   \<and> \<not> cursorIndex (Inputting [0xD840, 0xDC00] 2 [] [])
         \<le> codePointLength (composingBuffer (Inputting [0xD840, 0xDC00] 2 [] []))"
  by code_simp

subsection \<open>Eviction from the head of the grid\<close>

lemma evictedText_setEvictedText:
  "evictedText (setEvictedText e (buildInputtingState E kh)) = e"
  "isInputting (setEvictedText e (buildInputtingState E kh))"
  by (simp_all add: buildInputtingState_def Let_def)

lemma walk_builder: "builder (walk E kh) = builder kh"
  by (simp add: walk_def)

lemma walk_size: "composingBufferSize (walk E kh) = composingBufferSize kh"
  by (simp add: walk_def)

lemma emits_handlePunctuation:
  "lmHasUnigramsForKey E (languageModel kh) pk \<Longrightarrow> isEmpty (R E) (readingBuffer kh)
   \<Longrightarrow> emitsEvicted (fst (snd (handlePunctuation E pk kh))) (fst (insertAndEvict E pk kh))"
  by (simp add: handlePunctuation_def Let_def emitsEvicted_def evictedText_setEvictedText)

lemma emits_composeReading:
  "lmHasUnigramsForKey E (languageModel kh) (syllableComposedString (R E) (readingBuffer kh))
   \<Longrightarrow> emitsEvicted (fst (snd (composeReading E now kh)))
         (fst (insertAndEvict E (syllableComposedString (R E) (readingBuffer kh))
                 (kh\<lparr>readingBuffer := readingClear (R E) (readingBuffer kh)\<rparr>)))"
  by (simp add: composeReading_def Let_def emitsEvicted_def evictedText_setEvictedText)

lemma emits_handleShiftSpace:
  "putLowercaseLettersToComposingBuffer kh
   \<Longrightarrow> emitsEvicted (fst (snd (handleShiftSpace E kh))) (fst (insertAndEvict E (js '' '') kh))"
  by (simp add: handleShiftSpace_def Let_def emitsEvicted_def evictedText_setEvictedText)

lemma emits_handleBacktick:
  "isEmpty (R E) (readingBuffer kh)
   \<Longrightarrow> emitsEvicted (fst (snd (handleBacktick E kh)))
         (fst (insertAndEvict E kPunctuationListUnigramKey kh))"
  by (simp add: handleBacktick_def Let_def emitsEvicted_def evictedText_setEvictedText)

text \<open>C1, as the code has it. Let the builder be as wide as it has readings and evict
  from the head, let the grid be full (its width equals the composing-buffer size), and
  let the first walked anchor span at least one reading and no more than the grid holds.
  Then, after a reading is inserted and \<open>popEvictedTextAndWalk\<close> has run: the grid's width
  is the size plus one minus the span of that first anchor, so at most the size, and the
  size exactly when that anchor spans one reading; the readings are those after the
  insertion without the first ones, as many as the anchor spans; the evicted text is the
  value of that anchor's node; and each of the four blocks of \<open>handle\<close> that insert a
  reading hands it to the state callback in the \<open>Inputting\<close> state it emits first.\<close>

theorem C1_insert_and_evict:
  fixes E :: "('r, 'b, 'n, 'u) env" and kh :: "('r, 'b, 'n, 'u) keyHandler" and k :: jsstring
  defines "b1 \<equiv> insertReadingAtCursor (B E) (builder kh) k"
      and "r \<equiv> insertAndEvict E k kh"
      and "a \<equiv> hd (walkedNodes kh)"
  assumes he: "headEviction (B E)"
      and full: "int (gridWidth (B E) (builder kh)) = composingBufferSize kh"
      and walked: "walkedNodes kh \<noteq> []"
      and span: "1 \<le> spanningLength a" "spanningLength a \<le> gridWidth (B E) (builder kh)"
  shows "gridWidth (B E) (builder (snd r)) = gridWidth (B E) (builder kh) + 1 - spanningLength a
       \<and> int (gridWidth (B E) (builder (snd r))) \<le> composingBufferSize (snd r)
       \<and> (spanningLength a = 1 \<longrightarrow>
            int (gridWidth (B E) (builder (snd r))) = composingBufferSize (snd r))
       \<and> readings (B E) (builder (snd r)) = drop (spanningLength a) (readings (B E) b1)
       \<and> fst r = (case anchorNode a of
                    None \<Rightarrow> []
                  | Some n \<Rightarrow> val (currentKeyValue (nodeOf (B E) b1 n)))
       \<and> (lmHasUnigramsForKey E (languageModel kh) k \<and> isEmpty (R E) (readingBuffer kh)
            \<longrightarrow> emitsEvicted (fst (snd (handlePunctuation E k kh))) (fst r))
       \<and> (putLowercaseLettersToComposingBuffer kh \<and> k = js '' ''
            \<longrightarrow> emitsEvicted (fst (snd (handleShiftSpace E kh))) (fst r))
       \<and> (isEmpty (R E) (readingBuffer kh) \<and> k = kPunctuationListUnigramKey
            \<longrightarrow> emitsEvicted (fst (snd (handleBacktick E kh))) (fst r))
       \<and> (\<forall>kh0 now. kh = kh0\<lparr>readingBuffer := readingClear (R E) (readingBuffer kh0)\<rparr>
              \<and> k = syllableComposedString (R E) (readingBuffer kh0)
              \<and> lmHasUnigramsForKey E (languageModel kh0) k
            \<longrightarrow> emitsEvicted (fst (snd (composeReading E now kh0))) (fst r))"
proof -
  have w1: "gridWidth (B E) b1 = gridWidth (B E) (builder kh) + 1"
    using he by (simp add: headEviction_def b1_def)
  have le: "spanningLength a \<le> gridWidth (B E) b1" using span w1 by simp
  have rm: "gridWidth (B E) (removeHeadReadings (B E) b1 (spanningLength a))
              = gridWidth (B E) b1 - spanningLength a"
           "readings (B E) (removeHeadReadings (B E) b1 (spanningLength a))
              = drop (spanningLength a) (readings (B E) b1)"
    using he le by (simp_all add: headEviction_def)
  have over: "int (gridWidth (B E) b1) > composingBufferSize kh" using w1 full by simp
  have r: "r = ((case anchorNode a of
                    None \<Rightarrow> []
                  | Some n \<Rightarrow> val (currentKeyValue (nodeOf (B E) b1 n))),
                walk E (kh\<lparr>builder := removeHeadReadings (B E) b1 (spanningLength a)\<rparr>))"
    using over walked
    by (simp add: r_def a_def insertAndEvict_def popEvictedTextAndWalk_def Let_def
        b1_def [symmetric] split: option.splits)
  have W: "gridWidth (B E) (builder (snd r))
             = gridWidth (B E) (builder kh) + 1 - spanningLength a"
    using rm(1) w1 by (simp add: r walk_builder)
  have S: "composingBufferSize (snd r) = composingBufferSize kh"
    by (simp add: r walk_size)
  have rd: "readings (B E) (builder (snd r)) = drop (spanningLength a) (readings (B E) b1)"
    using rm(2) by (simp add: r walk_builder)
  have ev: "fst r = (case anchorNode a of
                      None \<Rightarrow> []
                    | Some n \<Rightarrow> val (currentKeyValue (nodeOf (B E) b1 n)))"
    by (simp add: r)
  have le': "int (gridWidth (B E) (builder (snd r))) \<le> composingBufferSize (snd r)"
    using W S full span by linarith
  have eq': "spanningLength a = 1 \<longrightarrow>
             int (gridWidth (B E) (builder (snd r))) = composingBufferSize (snd r)"
    using W S full by simp
  have e1: "lmHasUnigramsForKey E (languageModel kh) k \<and> isEmpty (R E) (readingBuffer kh)
            \<longrightarrow> emitsEvicted (fst (snd (handlePunctuation E k kh))) (fst r)"
    by (simp add: r_def emits_handlePunctuation)
  have e2: "putLowercaseLettersToComposingBuffer kh \<and> k = js '' ''
            \<longrightarrow> emitsEvicted (fst (snd (handleShiftSpace E kh))) (fst r)"
    by (auto simp: r_def emits_handleShiftSpace)
  have e3: "isEmpty (R E) (readingBuffer kh) \<and> k = kPunctuationListUnigramKey
            \<longrightarrow> emitsEvicted (fst (snd (handleBacktick E kh))) (fst r)"
    by (auto simp: r_def emits_handleBacktick)
  have e4: "\<forall>kh0 now. kh = kh0\<lparr>readingBuffer := readingClear (R E) (readingBuffer kh0)\<rparr>
              \<and> k = syllableComposedString (R E) (readingBuffer kh0)
              \<and> lmHasUnigramsForKey E (languageModel kh0) k
            \<longrightarrow> emitsEvicted (fst (snd (composeReading E now kh0))) (fst r)"
    by (auto simp: r_def emits_composeReading)
  show ?thesis
    using W le' eq' rd ev e1 e2 e3 e4 by blast
qed

text \<open>The handler with composing-buffer size 4 after \<open>! ! ! !\<close>; the key \<open>!\<close> is typed.
  The first anchor spans one reading: it is evicted and the grid is full again.\<close>

theorem C1_witness:
  "headEviction (B (exE exTable))
   \<and> int (gridWidth (B (exE exTable)) (builder (snd (snd exFullSingle))))
       = composingBufferSize (snd (snd exFullSingle))
   \<and> length (walkedNodes (snd (snd exFullSingle))) = 4
   \<and> spanningLength (hd (walkedNodes (snd (snd exFullSingle)))) = 1
   \<and> gridWidth (B (exE exTable))
       (builder (snd (insertAndEvict (exE exTable) (js ''_punctuation_!'') (snd (snd exFullSingle)))))
       = 4
   \<and> fst (insertAndEvict (exE exTable) (js ''_punctuation_!'') (snd (snd exFullSingle))) = js ''!''
   \<and> fst (snd (handle (exE exTable) 0 (asciiKey ''!'') (fst (snd exFullSingle))
                 (snd (snd exFullSingle))))
       = [StateCallback (Inputting (js ''!!!!'') 4 [] (js ''!''))]"
proof -
  have he: "headEviction (B (exE exTable))"
    by (auto simp add: headEviction_def exE_def exB_def min_def)
  have full: "int (gridWidth (B (exE exTable)) (builder (snd (snd exFullSingle))))
                = composingBufferSize (snd (snd exFullSingle))"
    by code_simp
  have len: "length (walkedNodes (snd (snd exFullSingle))) = 4"
    by code_simp
  then have ne: "walkedNodes (snd (snd exFullSingle)) \<noteq> []"
    by auto
  have sp: "spanningLength (hd (walkedNodes (snd (snd exFullSingle)))) = 1"
    by code_simp
  have w: "gridWidth (B (exE exTable)) (builder (snd (snd exFullSingle))) = 4"
    by code_simp
  have ev: "fst (insertAndEvict (exE exTable) (js ''_punctuation_!'') (snd (snd exFullSingle)))
              = js ''!''"
    by code_simp
  have out: "fst (snd (handle (exE exTable) 0 (asciiKey ''!'') (fst (snd exFullSingle))
                 (snd (snd exFullSingle))))
       = [StateCallback (Inputting (js ''!!!!'') 4 [] (js ''!''))]"
    by code_simp
  have "gridWidth (B (exE exTable))
          (builder (snd (insertAndEvict (exE exTable) (js ''_punctuation_!'')
                           (snd (snd exFullSingle)))))
        = gridWidth (B (exE exTable)) (builder (snd (snd exFullSingle))) + 1
          - spanningLength (hd (walkedNodes (snd (snd exFullSingle))))"
    using C1_insert_and_evict [OF he full ne, where k = "js ''_punctuation_!''"] sp w
    by simp
  then show ?thesis
    using he full len sp w ev out by simp
qed

text \<open>The claim has the width equal to the size again. The handler with size 4 after
  \<open>x 3 x 3 ! !\<close> has a full grid whose first node is the phrase \<open>XX\<close> of two readings;
  when \<open>!\<close> is typed, both readings are evicted and the width is 3.\<close>

theorem C1_counterexample:
  "int (gridWidth (B (exE exTable)) (builder (snd (snd exFullPhrase))))
     = composingBufferSize (snd (snd exFullPhrase))
   \<and> composingBufferSize (snd (snd exFullPhrase)) = 4
   \<and> fst (snd exFullPhrase) = Inputting (js ''XX!!'') 4 [] []
   \<and> fst (snd (handle (exE exTable) 0 (asciiKey ''!'') (fst (snd exFullPhrase))
                 (snd (snd exFullPhrase))))
       = [StateCallback (Inputting (js ''!!!'') 3 [] (js ''XX''))]
   \<and> gridWidth (B (exE exTable))
       (builder (snd (snd (handle (exE exTable) 0 (asciiKey ''!'') (fst (snd exFullPhrase))
                             (snd (snd exFullPhrase))))))
       = 3
   \<and> composingBufferSize
       (snd (snd (handle (exE exTable) 0 (asciiKey ''!'') (fst (snd exFullPhrase))
                    (snd (snd exFullPhrase)))))
       = 4"
  by code_simp

subsection \<open>Which keys handle consumes\<close>









lemma fst_returned: "fst (returned r) = Inr (fst r)"
  by (simp add: returned_def)









subsection \<open>The language model: unigramsForKey and addUserPhrase\<close>

lemma set_dedupByValue: "valueOf ` set (dedupByValue xs) = valueOf ` set xs"
proof (induction xs)
  case Nil
  then show ?case by simp
next
  case (Cons x xs)
  have "valueOf ` set (filter (\<lambda>w. valueOf w \<noteq> valueOf x) (dedupByValue xs))
          = valueOf ` set (dedupByValue xs) - {valueOf x}"
    by auto
  with Cons show ?case by auto
qed

lemma dedupByValue_snoc:
  "dedupByValue (xs @ [x]) =
     (if valueOf x \<in> valueOf ` set xs then dedupByValue xs else dedupByValue xs @ [x])"
  by (induction xs) auto

lemma foldl_plainStep:
  "foldl plainStep (dedupByValue ys, map valueOf ys) xs
     = (dedupByValue (ys @ xs), map valueOf (ys @ xs))"
proof (induction xs arbitrary: ys)
  case Nil
  then show ?case by simp
next
  case (Cons x xs)
  have "plainStep (dedupByValue ys, map valueOf ys) x
          = (dedupByValue (ys @ [x]), map valueOf (ys @ [x]))"
    by (simp add: plainStep_def dedupByValue_snoc)
  then show ?case using Cons.IH [of "ys @ [x]"] by simp
qed

lemma userStep_plain:
  "userStep conv k acc (Unigram (KeyValuePair k item) (Num 0))
     = plainStep acc (Unigram (KeyValuePair k (convert conv item)) (Num 0))"
  by (cases conv)
     (simp_all add: userStep_def plainStep_def valueOf_def Let_def Unigram_def KeyValuePair_def
        convert_def)

lemma foldl_userStep:
  "foldl (userStep conv k) acc (map (\<lambda>item. Unigram (KeyValuePair k item) (Num 0)) items)
     = foldl plainStep acc
         (map (\<lambda>item. Unigram (KeyValuePair k (convert conv item)) (Num 0)) items)"
  by (induction items arbitrary: acc) (simp_all add: userStep_plain)

lemma staticStep_plain:
  "staticStep pf conv k v s acc = plainStep acc (Unigram (KeyValuePair k (convert conv v)) (pf s))"
  by (simp add: staticStep_def plainStep_def valueOf_def Let_def Unigram_def KeyValuePair_def)

lemma staticLoop_plain:
  "staticLoop pf conv k vals acc
     = foldl plainStep acc
         (map (\<lambda>e. Unigram (KeyValuePair k (convert conv (fst e))) (pf (snd e))) (entryPairs vals))"
  by (induction pf conv k vals acc rule: staticLoop.induct) (simp_all add: staticStep_plain)

lemma user_fold:
  "foldl (userStep (wlm_converter lm) k) ([], []) (up_unigramsForKey (wlm_userPhrases lm) k)
     = (dedupByValue (userEntries lm k), map valueOf (userEntries lm k))"
proof -
  have "foldl (userStep (wlm_converter lm) k) ([], []) (up_unigramsForKey (wlm_userPhrases lm) k)
          = foldl plainStep (dedupByValue [], map valueOf []) (userEntries lm k)"
    by (simp add: up_unigramsForKey_def userEntries_def foldl_userStep split: option.splits)
  then show ?thesis by (simp only: foldl_plainStep append_Nil)
qed

lemma unigramsForKey_merged:
  assumes "k \<noteq> js '' ''"
    and "wlm_map lm (maybeAbsoluteOrderKey a k) \<noteq> None
         \<or> maybeAbsoluteOrderKey a k \<notin> set objectPrototypeNames"
  shows "unigramsForKey a pf lm k = Inr (dedupByValue (userEntries lm k @ staticEntries a pf lm k))"
proof (cases "wlm_map lm (maybeAbsoluteOrderKey a k)")
  case None
  then show ?thesis
    using assms
    by (simp add: unigramsForKey_def Let_def user_fold staticEntries_def hasProperty_def)
next
  case (Some t)
  then show ?thesis
    using assms
    by (simp add: unigramsForKey_def Let_def user_fold staticEntries_def staticLoop_plain
        foldl_plainStep hasProperty_def splitEntry_def)
qed

lemma unigramsForKey_raises:
  assumes "k \<noteq> js '' ''"
    and "wlm_map lm (maybeAbsoluteOrderKey a k) = None"
    and "maybeAbsoluteOrderKey a k \<in> set objectPrototypeNames"
  shows "unigramsForKey a pf lm k = Inl TypeError"
  using assms by (simp add: unigramsForKey_def Let_def hasProperty_def splitEntry_def)

lemma proto_key: "maybeAbsoluteOrderKey a (js ''__proto__'') = js ''__proto__''"
  by code_simp

lemma proto_inherited: "js ''__proto__'' \<in> set objectPrototypeNames \<and> js ''__proto__'' \<noteq> js '' ''"
  by code_simp

lemma dedupByValue_append:
  "dedupByValue (xs @ ys)
     = dedupByValue xs @ filter (\<lambda>w. valueOf w \<notin> valueOf ` set xs) (dedupByValue ys)"
proof (induction xs)
  case Nil
  then show ?case by simp
next
  case (Cons x xs)
  have "filter (\<lambda>w. valueOf w \<noteq> valueOf x)
          (filter (\<lambda>w. valueOf w \<notin> valueOf ` set xs) (dedupByValue ys))
        = filter (\<lambda>w. valueOf w \<notin> valueOf ` set (x # xs)) (dedupByValue ys)"
    by (auto intro: filter_cong)
  with Cons show ?case by simp
qed

lemma distinct_dedupByValue: "distinct (map valueOf (dedupByValue xs))"
proof (induction xs)
  case Nil
  then show ?case by simp
next
  case (Cons x xs)
  have "distinct (map valueOf (filter (\<lambda>w. valueOf w \<noteq> valueOf x) (dedupByValue xs)))"
    using Cons by (simp add: distinct_map_filter)
  then show ?case by auto
qed


text \<open>C2. For every key other than \<open>" "\<close> whose actual key is a key of the dictionary,
  or is not in the dictionary object at all, \<open>unigramsForKey\<close> returns the user-phrase
  entries, each with score 0, before the entries of the static dictionary, the output
  converter (when set) applied to each value, and keeps of the entries with the same
  value only the first, so that a user entry wins over a dictionary entry; the values
  returned are distinct. For the key \<open>" "\<close> it returns one unigram, with key \<open>" "\<close> and
  value \<open>" "\<close>. For a key whose actual key is the name of a property that the dictionary
  object inherits, and no key of the dictionary, it returns nothing: it raises a
  \<open>TypeError\<close>. The key \<open>__proto__\<close> is one, whatever the absolute-order strings are, and
  \<open>hasUnigramsForKey\<close> is true of it.\<close>

theorem C2_unigramsForKey:
  fixes a :: "jsstring \<Rightarrow> jsstring" and pf :: "jsstring option \<Rightarrow> jsnum"
    and lm :: webLanguageModel and k :: jsstring
  defines "U \<equiv> userEntries lm k" and "S \<equiv> staticEntries a pf lm k"
      and "actualKey \<equiv> maybeAbsoluteOrderKey a k"
  shows "(k \<noteq> js '' ''
          \<and> (wlm_map lm actualKey \<noteq> None \<or> actualKey \<notin> set objectPrototypeNames) \<longrightarrow>
            unigramsForKey a pf lm k
              = Inr (dedupByValue U @ filter (\<lambda>w. valueOf w \<notin> valueOf ` set U) (dedupByValue S))
            \<and> unigramsForKey a pf lm k = Inr (dedupByValue (U @ S))
            \<and> distinct (map valueOf (dedupByValue (U @ S))))
       \<and> (\<forall>u \<in> set U. score u = Num 0)
       \<and> (\<exists>us. unigramsForKey a pf lm (js '' '') = Inr us
               \<and> map keyValue us = [KeyValuePair (js '' '') (js '' '')])
       \<and> (k \<noteq> js '' '' \<and> wlm_map lm actualKey = None \<and> actualKey \<in> set objectPrototypeNames
            \<longrightarrow> unigramsForKey a pf lm k = Inl TypeError)
       \<and> (wlm_map lm (js ''__proto__'') = None
            \<longrightarrow> unigramsForKey a pf lm (js ''__proto__'') = Inl TypeError
                \<and> hasUnigramsForKey a lm (js ''__proto__''))"
proof -
  have sc: "\<forall>u \<in> set U. score u = Num 0"
    by (auto simp: U_def userEntries_def Unigram_def)
  have sp: "\<exists>us. unigramsForKey a pf lm (js '' '') = Inr us
               \<and> map keyValue us = [KeyValuePair (js '' '') (js '' '')]"
    by (simp add: unigramsForKey_def Unigram_def)
  have mg: "k \<noteq> js '' ''
            \<and> (wlm_map lm actualKey \<noteq> None \<or> actualKey \<notin> set objectPrototypeNames)
            \<longrightarrow> unigramsForKey a pf lm k = Inr (dedupByValue (U @ S))"
    using unigramsForKey_merged [of k lm a pf] by (simp add: U_def S_def actualKey_def)
  have ap: "dedupByValue (U @ S)
              = dedupByValue U @ filter (\<lambda>w. valueOf w \<notin> valueOf ` set U) (dedupByValue S)"
    by (rule dedupByValue_append)
  have ds: "distinct (map valueOf (dedupByValue (U @ S)))"
    by (rule distinct_dedupByValue)
  have rs: "k \<noteq> js '' '' \<and> wlm_map lm actualKey = None \<and> actualKey \<in> set objectPrototypeNames
            \<longrightarrow> unigramsForKey a pf lm k = Inl TypeError"
    using unigramsForKey_raises [of k lm a pf] by (simp add: actualKey_def)
  have pr: "wlm_map lm (js ''__proto__'') = None
            \<longrightarrow> unigramsForKey a pf lm (js ''__proto__'') = Inl TypeError
                \<and> hasUnigramsForKey a lm (js ''__proto__'')"
    using unigramsForKey_raises [of "js ''__proto__''" lm a pf] proto_inherited
    by (simp add: proto_key hasUnigramsForKey_def hasProperty_def)
  show ?thesis
    using sc sp mg ds rs pr unfolding ap [symmetric] by blast
qed

text \<open>The example model at the key \<open>x3\<close>: the user's \<open>U\<close> (converted to \<open>u\<close>) and \<open>Y\<close>
  with score 0, then the dictionary's \<open>X\<close>; the dictionary's \<open>Y\<close> is left out. At the key
  \<open>__proto__\<close>, which its dictionary does not have, it raises.\<close>

theorem C2_witness:
  "js ''x3'' \<noteq> js '' ''
   \<and> wlm_map exWeb (maybeAbsoluteOrderKey (\<lambda>s. s) (js ''x3'')) \<noteq> None
   \<and> userEntries exWeb (js ''x3'')
       = [Unigram (KeyValuePair (js ''x3'') (js ''u'')) (Num 0),
          Unigram (KeyValuePair (js ''x3'') (js ''Y'')) (Num 0)]
   \<and> staticEntries (\<lambda>s. s) exParseFloat exWeb (js ''x3'')
       = [Unigram (KeyValuePair (js ''x3'') (js ''X'')) (Num (- 1)),
          Unigram (KeyValuePair (js ''x3'') (js ''Y'')) (Num (- 2))]
   \<and> unigramsForKey (\<lambda>s. s) exParseFloat exWeb (js ''x3'')
       = Inr [Unigram (KeyValuePair (js ''x3'') (js ''u'')) (Num 0),
              Unigram (KeyValuePair (js ''x3'') (js ''Y'')) (Num 0),
              Unigram (KeyValuePair (js ''x3'') (js ''X'')) (Num (- 1))]
   \<and> unigramsForKey (\<lambda>s. s) exParseFloat exWeb (js ''x3'')
       = Inr (dedupByValue (userEntries exWeb (js ''x3'')
                            @ staticEntries (\<lambda>s. s) exParseFloat exWeb (js ''x3'')))
   \<and> wlm_map exWeb (js ''__proto__'') = None
   \<and> unigramsForKey (\<lambda>s. s) exParseFloat exWeb (js ''__proto__'') = Inl TypeError
   \<and> hasUnigramsForKey (\<lambda>s. s) exWeb (js ''__proto__'')"
proof -
  have ne: "js ''x3'' \<noteq> js '' ''" by code_simp
  have own: "wlm_map exWeb (maybeAbsoluteOrderKey (\<lambda>s. s) (js ''x3'')) \<noteq> None" by code_simp
  have u: "userEntries exWeb (js ''x3'')
       = [Unigram (KeyValuePair (js ''x3'') (js ''u'')) (Num 0),
          Unigram (KeyValuePair (js ''x3'') (js ''Y'')) (Num 0)]"
    by code_simp
  have s: "staticEntries (\<lambda>s. s) exParseFloat exWeb (js ''x3'')
       = [Unigram (KeyValuePair (js ''x3'') (js ''X'')) (Num (- 1)),
          Unigram (KeyValuePair (js ''x3'') (js ''Y'')) (Num (- 2))]"
    by code_simp
  have r: "unigramsForKey (\<lambda>s. s) exParseFloat exWeb (js ''x3'')
       = Inr [Unigram (KeyValuePair (js ''x3'') (js ''u'')) (Num 0),
              Unigram (KeyValuePair (js ''x3'') (js ''Y'')) (Num 0),
              Unigram (KeyValuePair (js ''x3'') (js ''X'')) (Num (- 1))]"
    by code_simp
  have np: "wlm_map exWeb (js ''__proto__'') = None" by code_simp
  have m: "unigramsForKey (\<lambda>s. s) exParseFloat exWeb (js ''x3'')
       = Inr (dedupByValue (userEntries exWeb (js ''x3'')
                            @ staticEntries (\<lambda>s. s) exParseFloat exWeb (js ''x3'')))"
    using C2_unigramsForKey [where k = "js ''x3''" and a = "\<lambda>s. s" and pf = exParseFloat
        and lm = exWeb] ne own
    by blast
  have p: "unigramsForKey (\<lambda>s. s) exParseFloat exWeb (js ''__proto__'') = Inl TypeError
           \<and> hasUnigramsForKey (\<lambda>s. s) exWeb (js ''__proto__'')"
    using C2_unigramsForKey [where k = "js ''x3''" and a = "\<lambda>s. s" and pf = exParseFloat
        and lm = exWeb] np
    by blast
  show ?thesis
    using ne own u s r np m p by simp
qed

text \<open>C6, as the code has it: \<open>addUserPhrase\<close> applies the converter of added phrases
  (when set) to the phrase; when the converted phrase is already stored for the key,
  nothing changes and the change callback is not called; otherwise the converted phrase
  is put at the end of the key's list, after the phrases stored before, and the change
  callback is called once, with the new map.\<close>

theorem C6_addUserPhrase:
  fixes lm :: webLanguageModel and k phrase :: jsstring
  defines "p \<equiv> convert (addUserPhraseConverter lm) phrase"
      and "old \<equiv> (case up_map (wlm_userPhrases lm) k of None \<Rightarrow> [] | Some list \<Rightarrow> list)"
      and "lm' \<equiv> addUserPhrase k phrase lm"
  shows "(p \<in> set old \<longrightarrow> lm' = lm)
       \<and> (p \<notin> set old \<longrightarrow>
            up_map (wlm_userPhrases lm') = (up_map (wlm_userPhrases lm))(k \<mapsto> old @ [p])
            \<and> up_changes (wlm_userPhrases lm')
                = up_changes (wlm_userPhrases lm) @ [up_map (wlm_userPhrases lm')]
            \<and> wlm_map lm' = wlm_map lm)"
  by (auto simp: p_def old_def lm'_def addUserPhrase_def up_addUserPhrase_def onPhraseChange_def
      split: option.splits)

text \<open>The example model: \<open>w\<close> is converted to \<open>W\<close> and put after \<open>U\<close> and \<open>Y\<close>; adding
  \<open>Y\<close> again changes nothing.\<close>

theorem C6_witness:
  "convert (addUserPhraseConverter exWeb) (js ''w'') = js ''W''
   \<and> up_map (wlm_userPhrases exWeb) (js ''x3'') = Some [js ''U'', js ''Y'']
   \<and> up_map (wlm_userPhrases (addUserPhrase (js ''x3'') (js ''w'') exWeb)) (js ''x3'')
       = Some [js ''U'', js ''Y'', js ''W'']
   \<and> addUserPhrase (js ''x3'') (js ''Y'') exWeb = exWeb"
proof -
  have c1: "convert (addUserPhraseConverter exWeb) (js ''w'') = js ''W''" by code_simp
  have c2: "convert (addUserPhraseConverter exWeb) (js ''Y'') = js ''Y''" by code_simp
  have o: "up_map (wlm_userPhrases exWeb) (js ''x3'') = Some [js ''U'', js ''Y'']" by code_simp
  have n1: "js ''W'' \<notin> set [js ''U'', js ''Y'']" by code_simp
  have n2: "js ''Y'' \<in> set [js ''U'', js ''Y'']" by code_simp
  show ?thesis
    using c1 c2 o n1 n2
      C6_addUserPhrase [where k = "js ''x3''" and phrase = "js ''w''" and lm = exWeb]
      C6_addUserPhrase [where k = "js ''x3''" and phrase = "js ''Y''" and lm = exWeb]
    by simp
qed

text \<open>The claim has the phrase put before the phrases stored, and the callback notified:
  in the example \<open>W\<close> comes last, not first, and adding \<open>Y\<close> again calls no callback.\<close>

theorem C6_counterexample:
  "up_map (wlm_userPhrases (addUserPhrase (js ''x3'') (js ''w'') exWeb)) (js ''x3'')
     = Some [js ''U'', js ''Y'', js ''W'']
   \<and> up_map (wlm_userPhrases (addUserPhrase (js ''x3'') (js ''w'') exWeb)) (js ''x3'')
       \<noteq> Some (js ''W'' # [js ''U'', js ''Y''])
   \<and> up_changes (wlm_userPhrases (addUserPhrase (js ''x3'') (js ''Y'') exWeb)) = []"
  by code_simp

subsection \<open>The composing-buffer size\<close>

text \<open>C9: whatever integer is passed to the setter of the composing-buffer size, the
  stored size lies in [4, 100]; it is the value itself clamped to that interval (100 for
  a larger value, 4 for a smaller one).\<close>

theorem C9_composingBufferSize_clamped:
  "composingBufferSize (set_composingBufferSize v kh) = max 4 (min 100 v)
   \<and> 4 \<le> composingBufferSize (set_composingBufferSize v kh)
   \<and> composingBufferSize (set_composingBufferSize v kh) \<le> 100"
  by (simp add: set_composingBufferSize_def kMaxComposingBufferSize_def
      kMinComposingBufferSize_def Let_def)

subsection \<open>The absolute-order key\<close>

declare replaceAll.simps [simp del]

lemma js_us_hy: "js ''_-'' = [0x5F, 0x2D]"
  by (simp add: js_def)

lemma js_u7: "js ''_______'' = replicate 7 0x5F"
  by (simp add: js_def numeral_eq_Suc)

lemma protect_Nil [simp]: "protect [] = []"
  by (simp add: protect_def replaceAll.simps)

lemma protect_match [simp]: "protect (0x5F # 0x2D # cs) = replicate 7 0x5F @ protect cs"
  by (subst protect_def, subst replaceAll.simps) (simp add: js_us_hy js_u7 protect_def)

lemma protect_other:
  "\<not> (c = 0x5F \<and> take 1 cs = [0x2D]) \<Longrightarrow> protect (c # cs) = c # protect cs"
  by (subst protect_def, subst replaceAll.simps)
     (cases cs; auto simp add: js_us_hy protect_def)

lemma restore_Nil [simp]: "restore [] = []"
  by (simp add: restore_def replaceAll.simps)

lemma restore_match [simp]: "restore (replicate 7 0x5F @ s) = [0x5F, 0x2D] @ restore s"
  by (subst restore_def, subst replaceAll.simps) (simp add: js_us_hy js_u7 restore_def)

lemma restore_other:
  "take 7 (c # s) \<noteq> replicate 7 0x5F \<Longrightarrow> restore (c # s) = c # restore s"
  by (subst restore_def, subst replaceAll.simps) (simp add: js_us_hy js_u7 restore_def)

lemma hasSubstring_Nil: "hasSubstring s []"
  by (cases s) simp_all

lemma hasSubstring_prefix: "hasSubstring (p @ rest) p"
  by (cases p) (simp_all add: hasSubstring_Nil)

lemma hasSubstring_append: "hasSubstring (xs @ p @ rest) p"
  by (induction xs) (simp_all add: hasSubstring_prefix)

lemma replicate_shift: "x # replicate j x @ ys = replicate j x @ x # ys"
  by (induction j) simp_all

lemma guardedSegments_ne: "guardedSegments s \<noteq> []"
  by (induction s rule: guardedSegments.induct) (auto split: list.splits)

lemma guardedSegments_hd_prefix: "\<exists>r. s = hd (guardedSegments s) @ r"
  by (induction s rule: guardedSegments.induct) (auto split: list.splits)

lemma guardedSegments_hd_hyphen: "take 1 (hd (guardedSegments s)) \<noteq> [0x2D]"
  by (induction s rule: guardedSegments.induct) (auto split: list.splits)

lemma guardedSegments_hd_empty:
  "hd (guardedSegments s) = [] \<Longrightarrow> tl (guardedSegments s) \<noteq> [] \<Longrightarrow> take 1 s = [0x2D]"
  by (induction s rule: guardedSegments.induct) (auto split: list.splits if_splits)

lemma split_ne: "split d s \<noteq> []"
  by (induction s) (auto split: list.splits)

lemma split_append_no_sep:
  "d \<notin> set p \<Longrightarrow> split d (p @ s) = (p @ hd (split d s)) # tl (split d s)"
  using split_ne [of d s] by (induction p) (auto split: list.splits)

lemma split_protect:
  "split 0x2D (protect k) = map protect (guardedSegments k)"
proof (induction k rule: guardedSegments.induct)
  case 1
  then show ?case by simp
next
  case (2 c)
  then show ?case by (simp add: protect_other)
next
  case (3 c d cs)
  show ?case
  proof (cases "c = 0x5F \<and> d = 0x2D")
    case True
    obtain x xs where g: "guardedSegments cs = x # xs"
      using guardedSegments_ne [of cs] by (cases "guardedSegments cs") auto
    have "split 0x2D (protect cs) = protect x # map protect xs"
      using 3(1) True g by simp
    then show ?thesis
      using True g by (simp add: split_append_no_sep)
  next
    case False
    note nf = False
    obtain x xs where g: "guardedSegments (d # cs) = x # xs"
      using guardedSegments_ne [of "d # cs"] by (cases "guardedSegments (d # cs)") auto
    have p: "protect (c # d # cs) = c # protect (d # cs)"
      using nf by (simp add: protect_other)
    show ?thesis
    proof (cases "c = 0x2D")
      case True
      then show ?thesis using nf 3(2) p by simp
    next
      case False
      have ih: "split 0x2D (protect (d # cs)) = protect x # map protect xs"
        using 3(3) nf False g by simp
      have "take 1 x \<noteq> [0x2D]"
        using guardedSegments_hd_hyphen [of "d # cs"] g by simp
      then have "protect (c # x) = c # protect x"
        by (simp add: protect_other)
      then show ?thesis
        using nf False g ih p by auto
    qed
  qed
qed

lemma startsWithUnderscore_protect:
  "startsWithUnderscore (protect s) = startsWithUnderscore s"
proof (cases s)
  case Nil
  then show ?thesis by simp
next
  case (Cons c cs)
  show ?thesis
  proof (cases "c = 0x5F \<and> take 1 cs = [0x2D]")
    case True
    then obtain cs' where "cs = 0x2D # cs'" by (cases cs) auto
    with Cons True show ?thesis by (simp add: startsWithUnderscore_def numeral_eq_Suc)
  next
    case False
    with Cons show ?thesis by (simp add: protect_other startsWithUnderscore_def)
  qed
qed

lemma hasSubstring_tail: "hasSubstring cs p \<Longrightarrow> hasSubstring (c # cs) p"
  by simp

lemma hasSubstring_app_right: "hasSubstring a p \<Longrightarrow> hasSubstring (a @ r) p"
proof (induction a)
  case Nil
  then show ?case by (simp add: hasSubstring_Nil)
next
  case (Cons c cs)
  show ?case
  proof (cases "take (length p) (c # cs) = p")
    case True
    have le: "length p \<le> length (c # cs)"
      using arg_cong [OF True, of length] by simp
    have "take (length p) ((c # cs) @ r) = take (length p) (c # cs)"
      using le by (simp only: take_append) simp
    then have "take (length p) (c # cs @ r) = p" using True by simp
    then show ?thesis by simp
  next
    case False
    with Cons show ?thesis by simp
  qed
qed

lemma clean_tail: "clean (c # cs) \<Longrightarrow> clean cs"
  by (simp add: clean_def)

lemma clean_prefix: "clean (a @ r) \<Longrightarrow> clean a"
  using hasSubstring_app_right unfolding clean_def by blast

lemma clean_Nil: "clean []"
  by (simp add: clean_def js_def)

lemma tidy_guardedSegments: "clean k \<Longrightarrow> tidy (guardedSegments k)"
proof (induction k rule: guardedSegments.induct)
  case 1
  then show ?case by (simp add: clean_Nil)
next
  case (2 c)
  then show ?case by (simp add: clean_Nil)
next
  case (3 c d cs)
  show ?case
  proof (cases "c = 0x5F \<and> d = 0x2D")
    case True
    obtain x xs where g: "guardedSegments cs = x # xs"
      using guardedSegments_ne [of cs] by (cases "guardedSegments cs") auto
    have "clean cs" using 3(4) clean_tail by blast
    then have t: "tidy (x # xs)" using 3(1) True g by simp
    obtain r where "cs = x @ r" using guardedSegments_hd_prefix [of cs] g by auto
    then have "c # d # cs = (c # d # x) @ r" by simp
    then have cl: "clean (c # d # x)" using 3(4) clean_prefix by metis
    show ?thesis
    proof (cases xs)
      case Nil
      then show ?thesis using True g cl by simp
    next
      case (Cons y ys)
      then show ?thesis using True g cl t by (cases x) auto
    qed
  next
    case False
    note nf = False
    obtain x xs where g: "guardedSegments (d # cs) = x # xs"
      using guardedSegments_ne [of "d # cs"] by (cases "guardedSegments (d # cs)") auto
    have cd: "clean (d # cs)" using 3(4) clean_tail by blast
    show ?thesis
    proof (cases "c = 0x2D")
      case True
      have "tidy (x # xs)" using 3(2) nf True g cd by simp
      then show ?thesis using nf True g by (simp add: clean_Nil)
    next
      case False
      have t: "tidy (x # xs)" using 3(3) nf False g cd by simp
      obtain r where "d # cs = x @ r" using guardedSegments_hd_prefix [of "d # cs"] g by auto
      then have "c # d # cs = (c # x) @ r" by simp
      then have cl: "clean (c # x)" using 3(4) clean_prefix by metis
      show ?thesis
      proof (cases xs)
        case Nil
        then show ?thesis using nf False g cl by auto
      next
        case (Cons y ys)
        have "x = [] \<Longrightarrow> c \<noteq> 0x5F"
        proof
          assume "x = []" and c: "c = 0x5F"
          then have "take 1 (d # cs) = [0x2D]"
            using guardedSegments_hd_empty [of "d # cs"] g Cons by simp
          with nf c show False by simp
        qed
        then show ?thesis using nf False g cl t Cons by (cases x) auto
      qed
    qed
  qed
qed

lemma restore_no_underscore: "0x5F \<notin> set a \<Longrightarrow> restore (a @ b) = a @ restore b"
  by (induction a) (auto simp add: restore_other numeral_eq_Suc)


lemma protect_underscores:
  "0 < n \<Longrightarrow> take n (protect s @ b) = replicate n 0x5F \<Longrightarrow> s \<noteq> []
   \<Longrightarrow> (last s = 0x5F \<longrightarrow> take 1 b \<noteq> [0x5F])
   \<Longrightarrow> (\<exists>j<n. \<exists>rest. s = replicate j 0x5F @ 0x5F # 0x2D # rest)
       \<or> (n \<le> length s \<and> take n s = replicate n 0x5F)"
proof (induction n arbitrary: s)
  case 0
  then show ?case by simp
next
  case (Suc n)
  from Suc.prems(3) obtain c cs where s: "s = c # cs" by (cases s) auto
  show ?case
  proof (cases "c = 0x5F \<and> take 1 cs = [0x2D]")
    case True
    then obtain cs' where "cs = 0x2D # cs'" by (cases cs) auto
    with True s have "s = replicate 0 0x5F @ 0x5F # 0x2D # cs'" by simp
    then show ?thesis by blast
  next
    case False
    then have p: "protect s = c # protect cs" using s by (simp add: protect_other)
    with Suc.prems(2) have c: "c = 0x5F" and tk: "take n (protect cs @ b) = replicate n 0x5F"
      by simp_all
    show ?thesis
    proof (cases "n = 0")
      case True
      with s c show ?thesis by simp
    next
      case False
      then have n: "0 < n" by simp
      have ne: "cs \<noteq> []"
      proof
        assume e: "cs = []"
        then have "take 1 b \<noteq> [0x5F]" using Suc.prems(4) s c by simp
        moreover have "take n b = replicate n 0x5F" using tk e by simp
        then have "take 1 (take n b) = take 1 (replicate n 0x5F)" by simp
        then have "take 1 b = [0x5F]" using n by (cases n) (simp_all add: min_def)
        ultimately show False by simp
      qed
      then have la: "last cs = 0x5F \<longrightarrow> take 1 b \<noteq> [0x5F]" using Suc.prems(4) s by simp
      from Suc.IH [OF n tk ne la]
      show ?thesis
      proof
        assume "\<exists>j<n. \<exists>rest. cs = replicate j 0x5F @ 0x5F # 0x2D # rest"
        then obtain j rest where j: "j < n" and cs: "cs = replicate j 0x5F @ 0x5F # 0x2D # rest"
          by blast
        have "s = replicate (Suc j) 0x5F @ 0x5F # 0x2D # rest" using s c cs by simp
        with j show ?thesis by (metis Suc_mono)
      next
        assume "n \<le> length cs \<and> take n cs = replicate n 0x5F"
        with s c show ?thesis by simp
      qed
    qed
  qed
qed

lemma restore_protect:
  "clean s \<Longrightarrow> (s \<noteq> [] \<and> last s = 0x5F \<longrightarrow> take 1 b \<noteq> [0x5F])
   \<Longrightarrow> restore (protect s @ b) = s @ restore b"
proof (induction s rule: measure_induct_rule [where f = length])
  case (less s)
  show ?case
  proof (cases s)
    case Nil
    then show ?thesis by simp
  next
    case (Cons c cs)
    have ccs: "clean cs" using less.prems(1) Cons clean_tail by blast
    show ?thesis
    proof (cases "c = 0x5F \<and> take 1 cs = [0x2D]")
      case True
      then obtain cs' where cs: "cs = 0x2D # cs'" by (cases cs) auto
      have "clean cs'" using ccs cs clean_tail by blast
      moreover have "cs' \<noteq> [] \<and> last cs' = 0x5F \<longrightarrow> take 1 b \<noteq> [0x5F]"
        using less.prems(2) Cons cs by simp
      moreover have "length cs' < length s" using Cons cs by simp
      ultimately have "restore (protect cs' @ b) = cs' @ restore b"
        using less.IH by blast
      then show ?thesis using True Cons cs by simp
    next
      case False
      have la: "cs \<noteq> [] \<and> last cs = 0x5F \<longrightarrow> take 1 b \<noteq> [0x5F]"
        using less.prems(2) Cons by simp
      have ih: "restore (protect cs @ b) = cs @ restore b"
        using less.IH [of cs] ccs la Cons by simp
      have "take 7 (c # protect cs @ b) \<noteq> replicate 7 0x5F"
      proof
        assume eq: "take 7 (c # protect cs @ b) = replicate 7 0x5F"
        then have c: "c = 0x5F" by (simp add: numeral_eq_Suc)
        have tk: "take 6 (protect cs @ b) = replicate 6 0x5F"
          using eq by (simp add: numeral_eq_Suc)
        have ne: "cs \<noteq> []"
        proof
          assume e: "cs = []"
          then have "take 1 b \<noteq> [0x5F]" using less.prems(2) Cons c by simp
          moreover have "take 1 (take 6 b) = take 1 (replicate 6 (0x5F :: 16 word))"
            using tk e by simp
          then have "take 1 b = [0x5F]" by (simp add: min_def numeral_eq_Suc)
          ultimately show False by simp
        qed
        have la': "last cs = 0x5F \<longrightarrow> take 1 b \<noteq> [0x5F]" using la ne by simp
        from protect_underscores [OF _ tk ne la']
        consider j rest where "j < 6" "cs = replicate j 0x5F @ 0x5F # 0x2D # rest"
          | "6 \<le> length cs" "take 6 cs = replicate 6 0x5F"
          by auto
        then show False
        proof cases
          case 1
          then have "c # cs = replicate j 0x5F @ js ''__-'' @ rest"
            using c by (simp add: js_def replicate_shift)
          then have "hasSubstring (c # cs) (js ''__-'')"
            using hasSubstring_append by metis
          with less.prems(1) Cons show False by (simp add: clean_def)
        next
          case 2
          then have "take 7 (c # cs) = js ''_______''"
            using c by (simp add: js_u7 numeral_eq_Suc)
          then have "hasSubstring (c # cs) (js ''_______'')"
            by (simp add: js_u7)
          with less.prems(1) Cons show False by (simp add: clean_def)
        qed
      qed
      then show ?thesis using False ih Cons by (simp add: protect_other restore_other)
    qed
  qed
qed

lemma restore_elements:
  "tidy segs \<Longrightarrow> \<forall>s \<in> set segs. \<not> startsWithUnderscore s \<longrightarrow> 0x5F \<notin> set (f (protect s))
   \<Longrightarrow> restore (concat (map (\<lambda>e. if startsWithUnderscore e then e else f e) (map protect segs)))
       = concat (map (\<lambda>s. if startsWithUnderscore s then s else f (protect s)) segs)"
proof (induction segs rule: tidy.induct)
  case 1
  then show ?case by simp
next
  case (2 s)
  then show ?case
    using restore_protect [of s "[]"] restore_no_underscore [of "f (protect s)" "[]"]
    by (simp add: startsWithUnderscore_protect)
next
  case (3 s t ts)
  let ?rest = "concat (map (\<lambda>e. if startsWithUnderscore e then e else f e) (map protect (t # ts)))"
  have ih: "restore ?rest
      = concat (map (\<lambda>s. if startsWithUnderscore s then s else f (protect s)) (t # ts))"
    using 3 by simp
  show ?case
  proof (cases "startsWithUnderscore s")
    case True
    have "restore (protect s @ ?rest) = s @ restore ?rest"
      using 3(2) by (intro restore_protect) auto
    then show ?thesis using True ih by (simp add: startsWithUnderscore_protect)
  next
    case False
    then have "0x5F \<notin> set (f (protect s))" using 3(3) by simp
    then have "restore (f (protect s) @ ?rest) = f (protect s) @ restore ?rest"
      by (rule restore_no_underscore)
    then show ?thesis using False ih by (simp add: startsWithUnderscore_protect)
  qed
qed

lemma key_segments:
  assumes "clean k"
    and "\<forall>s \<in> set (guardedSegments k). \<not> startsWithUnderscore s \<longrightarrow> 0x5F \<notin> set (f (protect s))"
  shows "maybeAbsoluteOrderKey f k = segmentsKept f k"
proof -
  have "maybeAbsoluteOrderKey f k
          = restore (concat (map (\<lambda>e. if startsWithUnderscore e then e else f e)
                               (map protect (guardedSegments k))))"
    by (simp add: maybeAbsoluteOrderKey_def Let_def protect_def [symmetric] restore_def [symmetric]
        join_empty_sep split_protect)
  then show ?thesis
    using restore_elements [OF tidy_guardedSegments [OF assms(1)] assms(2)]
    by (simp add: segmentsKept_def)
qed

text \<open>C7, as far as the code keeps it. \<open>maybeAbsoluteOrderKey("_punctuation_Hsu_-")\<close> is
  \<open>"_punctuation_Hsu_-"\<close>. In general, for a key that has neither \<open>__-\<close> nor seven
  underscores in a row in it, the result is made of the key's segments (the key cut at
  the hyphens that follow no underscore), one after the other: every segment that begins
  with an underscore as it is, every other segment as its absolute-order string, provided
  that string has no underscore. So a key of one segment that begins with an underscore
  comes out unchanged. A key with \<open>__-\<close> in it does not: the readings \<open>_punctuation__\<close> and
  \<open>_punctuation_!\<close> joined by a hyphen are one segment, and the hyphen comes out one place
  to the left.\<close>

theorem C7_maybeAbsoluteOrderKey:
  "maybeAbsoluteOrderKey f (js ''_punctuation_Hsu_-'') = js ''_punctuation_Hsu_-''
   \<and> (\<not> hasSubstring k (js ''__-'') \<and> \<not> hasSubstring k (js ''_______'')
       \<and> (\<forall>s \<in> set (guardedSegments k).
             \<not> startsWithUnderscore s \<longrightarrow> 0x5F \<notin> set (f (protect s)))
      \<longrightarrow> maybeAbsoluteOrderKey f k = segmentsKept f k)
   \<and> (\<not> hasSubstring k (js ''__-'') \<and> \<not> hasSubstring k (js ''_______'')
       \<and> guardedSegments k = [k] \<and> startsWithUnderscore k
      \<longrightarrow> maybeAbsoluteOrderKey f k = k)
   \<and> guardedSegments (js ''_punctuation__-_punctuation_!'') = [js ''_punctuation__-_punctuation_!'']
   \<and> maybeAbsoluteOrderKey f (js ''_punctuation__-_punctuation_!'')
       = js ''_punctuation_-__punctuation_!''"
proof -
  have e: "maybeAbsoluteOrderKey f (js ''_punctuation_Hsu_-'') = js ''_punctuation_Hsu_-''"
    by code_simp
  have g: "\<not> hasSubstring k (js ''__-'') \<and> \<not> hasSubstring k (js ''_______'')
       \<and> (\<forall>s \<in> set (guardedSegments k).
             \<not> startsWithUnderscore s \<longrightarrow> 0x5F \<notin> set (f (protect s)))
      \<longrightarrow> maybeAbsoluteOrderKey f k = segmentsKept f k"
    using key_segments [of k f] by (simp add: clean_def)
  have o: "\<not> hasSubstring k (js ''__-'') \<and> \<not> hasSubstring k (js ''_______'')
       \<and> guardedSegments k = [k] \<and> startsWithUnderscore k
      \<longrightarrow> maybeAbsoluteOrderKey f k = k"
    using key_segments [of k f] by (simp add: clean_def segmentsKept_def)
  have s: "guardedSegments (js ''_punctuation__-_punctuation_!'')
             = [js ''_punctuation__-_punctuation_!'']"
    by code_simp
  have b: "maybeAbsoluteOrderKey f (js ''_punctuation__-_punctuation_!'')
             = js ''_punctuation_-__punctuation_!''"
    by code_simp
  show ?thesis using e g o s b by blast
qed

text \<open>The readings \<open>_punctuation_Hsu_-\<close> and \<open>_punctuation_!\<close> joined by a hyphen: the two
  segments come out as they are, without the hyphen that joined them. The key of the
  claim is one segment.\<close>

theorem C7_witness:
  "\<not> hasSubstring (js ''_punctuation_Hsu_--_punctuation_!'') (js ''__-'')
   \<and> \<not> hasSubstring (js ''_punctuation_Hsu_--_punctuation_!'') (js ''_______'')
   \<and> guardedSegments (js ''_punctuation_Hsu_--_punctuation_!'')
       = [js ''_punctuation_Hsu_-'', js ''_punctuation_!'']
   \<and> list_all startsWithUnderscore (guardedSegments (js ''_punctuation_Hsu_--_punctuation_!''))
   \<and> maybeAbsoluteOrderKey (\<lambda>s. js ''?'') (js ''_punctuation_Hsu_--_punctuation_!'')
       = js ''_punctuation_Hsu_-_punctuation_!''
   \<and> guardedSegments (js ''_punctuation_Hsu_-'') = [js ''_punctuation_Hsu_-'']
   \<and> startsWithUnderscore (js ''_punctuation_Hsu_-'')
   \<and> maybeAbsoluteOrderKey (\<lambda>s. js ''?'') (js ''_punctuation_Hsu_-'') = js ''_punctuation_Hsu_-''"
proof -
  have h: "\<not> hasSubstring (js ''_punctuation_Hsu_--_punctuation_!'') (js ''__-'')"
    "\<not> hasSubstring (js ''_punctuation_Hsu_--_punctuation_!'') (js ''_______'')"
    "guardedSegments (js ''_punctuation_Hsu_--_punctuation_!'')
       = [js ''_punctuation_Hsu_-'', js ''_punctuation_!'']"
    "list_all startsWithUnderscore (guardedSegments (js ''_punctuation_Hsu_--_punctuation_!''))"
    "guardedSegments (js ''_punctuation_Hsu_-'') = [js ''_punctuation_Hsu_-'']"
    "startsWithUnderscore (js ''_punctuation_Hsu_-'')"
    by code_simp+
  have v: "segmentsKept (\<lambda>s. js ''?'') (js ''_punctuation_Hsu_--_punctuation_!'')
             = js ''_punctuation_Hsu_-_punctuation_!''"
    by code_simp
  have a: "\<forall>s \<in> set (guardedSegments (js ''_punctuation_Hsu_--_punctuation_!'')).
             \<not> startsWithUnderscore s \<longrightarrow> 0x5F \<notin> set ((\<lambda>s. js ''?'') (protect s))"
    using h(4) by (simp add: list_all_iff)
  have "maybeAbsoluteOrderKey (\<lambda>s. js ''?'') (js ''_punctuation_Hsu_--_punctuation_!'')
          = js ''_punctuation_Hsu_-_punctuation_!''"
    using C7_maybeAbsoluteOrderKey
        [where k = "js ''_punctuation_Hsu_--_punctuation_!''" and f = "\<lambda>s. js ''?''"] h(1,2) a v
    by simp
  moreover have "maybeAbsoluteOrderKey (\<lambda>s. js ''?'') (js ''_punctuation_Hsu_-'')
          = js ''_punctuation_Hsu_-''"
    using C7_maybeAbsoluteOrderKey [where k = "js ''_punctuation_Hsu_-''" and f = "\<lambda>s. js ''?''"]
    by simp
  ultimately show ?thesis using h by simp
qed

end
